theory Spec2Isabelle
  imports Complex_Main "HOL-Library.Multiset" "HOL-Library.Sublist" "HOL-Library.AList"
begin

section \<open>Survey subsampling: ranking, fitting and the degradation sweep\<close>

text \<open>
  A shallow embedding of \<^verbatim>\<open>src/survey_subsampling/subsample.py\<close>: the functions
  \<^verbatim>\<open>fit_models\<close>, \<^verbatim>\<open>calculate_feature_importance\<close> and \<^verbatim>\<open>degrading_fit\<close>.
  Python exceptions are values of the type \<open>error\<close>; floating-point numbers are
  idealised as real numbers, with not-a-number written \<open>None\<close> where the code can
  produce it.
\<close>

subsection \<open>Errors and indexing\<close>

datatype error = IndexError | KeyError | ValueError

text \<open>Sequencing of computations that may raise: the first exception wins.\<close>

definition bindE :: "error + 'a \<Rightarrow> ('a \<Rightarrow> error + 'b) \<Rightarrow> error + 'b" where
  "bindE m f = (case m of Inl e \<Rightarrow> Inl e | Inr v \<Rightarrow> f v)"

text \<open>\<^verbatim>\<open>xs[i]\<close> for a non-negative index: out of range raises IndexError.\<close>

definition getitem :: "'a list \<Rightarrow> nat \<Rightarrow> error + 'a" where
  "getitem xs i = (if i < length xs then Inr (xs ! i) else Inl IndexError)"

text \<open>
  \<^verbatim>\<open>xs[idx]\<close> for an array \<open>idx\<close> of non-negative indices (numpy's integer-array
  indexing): the elements at these positions, in the order of \<open>idx\<close>; an index out of
  range raises IndexError.
\<close>

definition take_indices :: "'a list \<Rightarrow> nat list \<Rightarrow> error + 'a list" where
  "take_indices xs idx =
     (if list_all (\<lambda>i. i < length xs) idx then Inr (map (\<lambda>i. xs ! i) idx)
      else Inl IndexError)"

text \<open>
  \<^verbatim>\<open>xs[0:k]\<close> for a Python integer \<open>k\<close>: a slice never raises; it stops at the end of
  the list, and a negative \<open>k\<close> counts from the end.
\<close>

definition slice_to :: "'a list \<Rightarrow> int \<Rightarrow> 'a list" where
  "slice_to xs k =
     (if k < 0 then take (nat (int (length xs) + k)) xs else take (nat k) xs)"

subsection \<open>The ranking engine: \<^verbatim>\<open>calculate_feature_importance\<close>\<close>

text \<open>
  The module \<^verbatim>\<open>survey_subsampling.sorting\<close> is not part of the sources at hand. Its
  two functions are taken as parameters; of their results only the ordering of the
  feature identifiers is used by \<^verbatim>\<open>calculate_feature_importance\<close>.
\<close>

record 'tbl sorting =
  aggregate_sort :: "'tbl \<Rightarrow> string list \<Rightarrow> string list"
  topn_sort :: "'tbl \<Rightarrow> string list \<Rightarrow> string list"

text \<open>
  Lines 220--224, the consistency report that is printed: \<open>all_qs\<close> is the list of the
  distinct elements of the two slices (\<^verbatim>\<open>list(set(...))\<close>; only its length is used),
  \<open>diff\<close> the distance of that length from \<open>number_of_questions\<close>, and \<open>frac\<close> the
  percentage \<^verbatim>\<open>1.0 * diff / number_of_questions * 100\<close>, which numpy evaluates to
  not-a-number (\<open>None\<close>) when \<open>number_of_questions\<close> is 0.
\<close>

definition consistency_report :: "string list \<Rightarrow> string list \<Rightarrow> int \<Rightarrow> int \<times> real option" where
  "consistency_report x_ids_sorted_by_aggregate x_ids_sorted_by_topn number_of_questions =
     (let sorted_importance_agg = slice_to x_ids_sorted_by_aggregate number_of_questions;
          sorted_importance_topn = slice_to x_ids_sorted_by_topn number_of_questions;
          all_qs = remdups (sorted_importance_agg @ sorted_importance_topn);
          diff = \<bar>number_of_questions - int (length all_qs)\<bar>;
          frac = (if number_of_questions = 0 then None
                  else Some (1 * real_of_int diff / real_of_int number_of_questions * 100))
      in (diff, frac))"

text \<open>
  \<^verbatim>\<open>np.where(a[:, None] == b)\<close>: the index pairs \<open>(i, j)\<close> with \<open>a[i] == b[j]\<close>, in
  row-major order.
\<close>

definition where_eq :: "'a list \<Rightarrow> 'a list \<Rightarrow> (nat \<times> nat) list" where
  "where_eq a b =
     concat (map (\<lambda>i. map (\<lambda>j. (i, j)) (filter (\<lambda>j. a ! i = b ! j) [0..<length b]))
                 [0..<length a])"

text \<open>Lines 227--229: \<^verbatim>\<open>np.mean(..., axis=0)\<close> of the two index rows.\<close>

definition avg_rank :: "string list \<Rightarrow> string list \<Rightarrow> real list" where
  "avg_rank x_ids_sorted_by_aggregate x_ids_sorted_by_topn =
     map (\<lambda>(i, j). (real i + real j) / 2)
         (where_eq x_ids_sorted_by_aggregate x_ids_sorted_by_topn)"

text \<open>
  \<^verbatim>\<open>np.argsort(keys)\<close> is called with its default sorting kind, quicksort, which numpy
  does not promise to be stable. What it returns is some arrangement of the indices
  \<open>0, ..., len(keys) - 1\<close> along which the keys do not decrease; the order among equal
  keys is left to the library. The index array returned is a parameter (\<open>order\<close>) of the
  model, and \<open>argsort_returns keys order\<close> says that \<open>order\<close> is a possible result.
\<close>

definition argsort_returns :: "real list \<Rightarrow> nat list \<Rightarrow> bool" where
  "argsort_returns keys order \<longleftrightarrow>
     mset order = mset [0..<length keys] \<and> sorted (map (\<lambda>i. keys ! i) order)"

text \<open>Line 230: \<^verbatim>\<open>x_ids_sorted_by_aggregate[np.argsort(avg_rank)]\<close>.\<close>

definition sorted_average :: "string list \<Rightarrow> nat list \<Rightarrow> error + string list" where
  "sorted_average x_ids_sorted_by_aggregate order =
     take_indices x_ids_sorted_by_aggregate order"

text \<open>
  The whole function. Its first component is what was printed by line 224 (the report),
  its second the returned triple of orderings, or the exception raised after printing.
\<close>

definition calculate_feature_importance ::
  "'tbl sorting \<Rightarrow> 'tbl \<Rightarrow> string list \<Rightarrow> int \<Rightarrow> nat list \<Rightarrow>
     (int \<times> real option) \<times> (error + string list \<times> string list \<times> string list)" where
  "calculate_feature_importance srt learners x_ids number_of_questions order =
     (let x_ids_sorted_by_aggregate = aggregate_sort srt learners x_ids;
          x_ids_sorted_by_topn = topn_sort srt learners x_ids;
          report = consistency_report x_ids_sorted_by_aggregate x_ids_sorted_by_topn
                     number_of_questions
      in (report,
          bindE (sorted_average x_ids_sorted_by_aggregate order)
            (\<lambda>x_ids_sorted_average.
               Inr (x_ids_sorted_by_aggregate, x_ids_sorted_by_topn, x_ids_sorted_average))))"

text \<open>
  The position index of a feature in an ordering, used to state the properties of the
  fused ranking.
\<close>

definition position :: "'a list \<Rightarrow> 'a \<Rightarrow> nat" where
  "position xs x = length (takeWhile (\<lambda>y. y \<noteq> x) xs)"

definition mean_position :: "string list \<Rightarrow> string list \<Rightarrow> string \<Rightarrow> real" where
  "mean_position agg topn f = (real (position agg f) + real (position topn f)) / 2"

text \<open>
  The ordering that the specification describes for the fused ranking: ascending by mean
  position, ties broken by the position in the aggregate ordering, that is, the stable
  sort of the aggregate ordering by mean position.
\<close>

definition fused_order_spec :: "string list \<Rightarrow> string list \<Rightarrow> string list" where
  "fused_order_spec agg topn = sort_key (mean_position agg topn) agg"

text \<open>A sorting module whose two functions return the given orderings, for examples.\<close>

definition fixed_sorting :: "string list \<Rightarrow> string list \<Rightarrow> 'tbl sorting" where
  "fixed_sorting agg topn =
     \<lparr>aggregate_sort = (\<lambda>learners x_ids. agg), topn_sort = (\<lambda>learners x_ids. topn)\<rparr>"

definition features18 :: "string list" where
  "features18 = [''a'', ''b'', ''c'', ''d'', ''e'', ''f'', ''g'', ''h'', ''i'',
                 ''j'', ''k'', ''l'', ''m'', ''n'', ''o'', ''p'', ''q'', ''r'']"

definition order18 :: "nat list" where
  "order18 = [0, 15, 14, 13, 12, 11, 10, 9, 8, 7, 6, 5, 4, 3, 2, 1, 16, 17]"

subsection \<open>Model fitting: \<^verbatim>\<open>fit_models\<close>\<close>

text \<open>
  The process-wide state of numpy's random-number generator: the state reached by
  seeding with a seed and then drawing a number of values. \<^verbatim>\<open>np.random.seed(s)\<close>
  replaces the state, whatever it was.
\<close>

datatype rng_state = Seeded int nat

definition np_random_seed :: "int \<Rightarrow> rng_state" where
  "np_random_seed s = Seeded s 0"

text \<open>
  The dataset: the labels of its columns, and its rows, each row giving a value for a
  column label. \<^verbatim>\<open>df[name]\<close> raises KeyError for a label that is not a column.
\<close>

record dataframe =
  columns :: "string list"
  rows :: "(string \<Rightarrow> real) list"

definition getcolumn :: "dataframe \<Rightarrow> string \<Rightarrow> error + real list" where
  "getcolumn df name =
     (if name \<in> set (columns df) then Inr (map (\<lambda>r. r name) (rows df)) else Inl KeyError)"

text \<open>\<^verbatim>\<open>df[x_ids].values\<close>: the matrix of the selected columns, one list per row.\<close>

definition getcolumns :: "dataframe \<Rightarrow> string list \<Rightarrow> error + real list list" where
  "getcolumns df x_ids =
     (if list_all (\<lambda>name. name \<in> set (columns df)) x_ids
      then Inr (map (\<lambda>r. map r x_ids) (rows df)) else Inl KeyError)"

text \<open>\<^verbatim>\<open>.astype(int)\<close> on a floating-point value truncates towards zero.\<close>

definition astype_int :: "real \<Rightarrow> int" where
  "astype_int v = (if 0 \<le> v then \<lfloor>v\<rfloor> else \<lceil>v\<rceil>)"

text \<open>
  \<^verbatim>\<open>np.unique(y, return_counts=True)[1]\<close>: the number of occurrences of each distinct
  value of \<open>y\<close>, in ascending order of the values.
\<close>

definition unique_counts :: "int list \<Rightarrow> nat list" where
  "unique_counts y = map (\<lambda>v. count_list y v) (sort (remdups y))"

text \<open>
  Modelled from the spec: the class \<^verbatim>\<open>Learner\<close> of \<^verbatim>\<open>survey_subsampling.core.learner\<close>
  is not part of the sources at hand. The record has the attributes that
  \<^verbatim>\<open>fit_models\<close> reads and writes (the Learner Record of the specification); a likelihood
  ratio that is not-a-number is \<open>None\<close>. A new learner has empty accumulators.
\<close>

record learner =
  dx :: string
  hc_n :: nat
  dx_n :: nat
  learner_x_ids :: "string list"
  acc_train :: "real list"
  acc_valid :: "real list"
  fi :: "real list list list"
  proba :: "real list"
  label :: "int list"
  f1 :: "real list"
  sen :: "real list"
  spe :: "real list"
  LRp :: "real option list"
  LRn :: "real option list"

definition Learner :: "string \<Rightarrow> nat \<Rightarrow> nat \<Rightarrow> string list \<Rightarrow> learner" where
  "Learner name hc pt ids =
     \<lparr>dx = name, hc_n = hc, dx_n = pt, learner_x_ids = ids, acc_train = [], acc_valid = [],
      fi = [], proba = [], label = [], f1 = [], sen = [], spe = [], LRp = [], LRn = []\<rparr>"

text \<open>
  Modelled from the spec: \<^verbatim>\<open>Learner.summary()\<close>, the one-row table of the means of the
  recorded metrics, keyed by diagnosis. A mean over an array that holds a not-a-number
  (or over no value at all) is not-a-number.
\<close>

record summary_row =
  summary_dx :: string
  summary_hc_n :: nat
  summary_dx_n :: nat
  summary_acc_train :: "real option"
  summary_acc_valid :: "real option"
  summary_f1 :: "real option"
  summary_sen :: "real option"
  summary_spe :: "real option"
  summary_LRp :: "real option"
  summary_LRn :: "real option"

definition mean_nan :: "real option list \<Rightarrow> real option" where
  "mean_nan vs =
     (if vs = [] \<or> None \<in> set vs then None
      else Some (sum_list (map the vs) / real (length vs)))"

definition summary :: "learner \<Rightarrow> summary_row list" where
  "summary l =
     [\<lparr>summary_dx = dx l, summary_hc_n = hc_n l, summary_dx_n = dx_n l,
       summary_acc_train = mean_nan (map Some (acc_train l)),
       summary_acc_valid = mean_nan (map Some (acc_valid l)),
       summary_f1 = mean_nan (map Some (f1 l)),
       summary_sen = mean_nan (map Some (sen l)),
       summary_spe = mean_nan (map Some (spe l)),
       summary_LRp = mean_nan (LRp l),
       summary_LRn = mean_nan (LRn l)\<rparr>]"

text \<open>
  scikit-learn. What one pass of the loop body obtains from the library (lines 132--175:
  fitting the calibrated classifier on the training partition, its predictions, the
  metric functions and the look-ups in the report they return) is one record; the
  importances are one vector per calibrated sub-model. The fit draws from numpy's
  process-wide generator (the forest is built with no \<^verbatim>\<open>random_state\<close> of its own), so
  it takes the generator's state and returns the new one; any of the calls may raise.
  \<open>cv_split\<close> is \<^verbatim>\<open>StratifiedKFold(shuffle=True, random_state=42).split\<close>, which has its
  own fixed seed: the index arrays of the training and of the test partition of every
  fold.
\<close>

record fold_scores =
  train_accuracy :: real
  valid_accuracy :: real
  feature_importances :: "real list list"
  predicted_proba :: "real list"
  f1_score :: real
  recall_1 :: real
  recall_0 :: real
  lr_positive :: "real option"
  lr_negative :: "real option"

record sklearn =
  cv_split :: "real list list \<Rightarrow> int list \<Rightarrow> error + (nat list \<times> nat list) list"
  fit_and_score ::
    "rng_state \<Rightarrow> real list list \<Rightarrow> int list \<Rightarrow> real list list \<Rightarrow> int list \<Rightarrow>
       (error + fold_scores) \<times> rng_state"

text \<open>Lines 140--175: what one fold appends to the learner.\<close>

definition record_fold :: "learner \<Rightarrow> fold_scores \<Rightarrow> int list \<Rightarrow> learner" where
  "record_fold l sc y_te =
     l\<lparr>acc_train := acc_train l @ [train_accuracy sc],
       acc_valid := acc_valid l @ [valid_accuracy sc],
       fi := fi l @ [feature_importances sc],
       proba := proba l @ predicted_proba sc,
       label := label l @ y_te,
       f1 := f1 l @ [f1_score sc],
       sen := sen l @ [recall_1 sc],
       spe := spe l @ [recall_0 sc],
       LRp := LRp l @ [lr_positive sc],
       LRn := LRn l @ [lr_negative sc]\<rparr>"

text \<open>Lines 123--175: the loop over the outer folds.\<close>

fun cv_loop ::
  "sklearn \<Rightarrow> real list list \<Rightarrow> int list \<Rightarrow> (nat list \<times> nat list) list \<Rightarrow> learner \<Rightarrow>
     rng_state \<Rightarrow> (error + learner) \<times> rng_state" where
  "cv_loop sk X y [] current_learner g = (Inr current_learner, g)"
| "cv_loop sk X y ((idx_train, idx_test) # folds) current_learner g =
     (case bindE (take_indices X idx_train) (\<lambda>X_tr.
           bindE (take_indices y idx_train) (\<lambda>y_tr.
           bindE (take_indices X idx_test) (\<lambda>X_te.
           bindE (take_indices y idx_test) (\<lambda>y_te. Inr (X_tr, y_tr, X_te, y_te))))) of
        Inl e \<Rightarrow> (Inl e, g)
      | Inr (X_tr, y_tr, X_te, y_te) \<Rightarrow>
          (case fit_and_score sk g X_tr y_tr X_te y_te of
             (Inl e, g') \<Rightarrow> (Inl e, g')
           | (Inr sc, g') \<Rightarrow> cv_loop sk X y folds (record_fold current_learner sc y_te) g'))"

text \<open>
  \<^verbatim>\<open>np.vstack(current_learner.fi)\<close>: every entry of \<open>fi\<close> (the vectors of one outer fold)
  becomes a block of rows, an entry without vectors a single row of length 0, and the
  blocks are stacked. It raises ValueError when there is no block or when the rows
  differ in length.
\<close>

definition atleast_2d :: "real list list \<Rightarrow> real list list" where
  "atleast_2d vs = (if vs = [] then [[]] else vs)"

definition vstack :: "real list list list \<Rightarrow> error + real list list" where
  "vstack blocks =
     (let stacked = concat (map atleast_2d blocks)
      in if blocks = [] \<or> \<not> list_all (\<lambda>r. length r = length (hd stacked)) stacked
         then Inl ValueError else Inr stacked)"

text \<open>\<^verbatim>\<open>np.mean(m, axis=0)\<close> of a matrix with at least one row: the mean of every column.\<close>

definition mean_axis0 :: "real list list \<Rightarrow> real list" where
  "mean_axis0 m =
     map (\<lambda>j. sum_list (map (\<lambda>r. r ! j) m) / real (length m)) [0..<length (hd m)]"

text \<open>Line 182.\<close>

definition importance_means :: "real list list list \<Rightarrow> error + real list" where
  "importance_means nested = bindE (vstack nested) (\<lambda>m. Inr (mean_axis0 m))"

text \<open>
  The two-stage average of the specification: the mean of the sub-model vectors of every
  outer fold, then the mean of these per-fold vectors.
\<close>

definition two_stage_mean :: "real list list list \<Rightarrow> real list" where
  "two_stage_mean nested = mean_axis0 (map mean_axis0 nested)"

text \<open>
  Lines 180--184: the dictionary \<^verbatim>\<open>tmp_learner\<close>, as an association list in insertion
  order; storing under a key that is present replaces its value where it stands.
\<close>

datatype cell = Str string | Num real

definition importance_row :: "string \<Rightarrow> string list \<Rightarrow> real list \<Rightarrow> (string \<times> cell) list" where
  "importance_row name x_ids means =
     fold (\<lambda>(assessment, importance) tmp_learner.
             AList.update assessment (Num importance) tmp_learner)
          (zip x_ids means) [(''Dx'', Str name)]"

text \<open>Lines 180--185: the row of the importance table for a learner.\<close>

definition learner_row :: "learner \<Rightarrow> string list \<Rightarrow> error + (string \<times> cell) list" where
  "learner_row current_learner x_ids =
     bindE (importance_means (fi current_learner))
       (\<lambda>means. Inr (importance_row (dx current_learner) x_ids means))"

text \<open>\<^verbatim>\<open>pd.concat(tables)\<close> raises ValueError when there is nothing to concatenate.\<close>

definition pd_concat :: "'a list list \<Rightarrow> error + 'a list" where
  "pd_concat tables = (if tables = [] then Inl ValueError else Inr (concat tables))"

text \<open>Lines 114--187: the body of the loop over the diagnoses, for one diagnosis.\<close>

definition fit_diagnosis ::
  "sklearn \<Rightarrow> dataframe \<Rightarrow> real list list \<Rightarrow> string list \<Rightarrow> string \<Rightarrow> rng_state \<Rightarrow>
     (error + summary_row list \<times> (string \<times> cell) list) \<times> rng_state" where
  "fit_diagnosis sk df X x_ids y_name g =
     (case bindE (getcolumn df y_name) (\<lambda>col.
             let y = map astype_int col; uc = unique_counts y
             in bindE (getitem uc 0) (\<lambda>hc.
                bindE (getitem uc 1) (\<lambda>pt.
                bindE (cv_split sk X y) (\<lambda>folds.
                  Inr (y, Learner y_name hc pt x_ids, folds))))) of
        Inl e \<Rightarrow> (Inl e, g)
      | Inr (y, current_learner, folds) \<Rightarrow>
          (case cv_loop sk X y folds current_learner g of
             (Inl e, g') \<Rightarrow> (Inl e, g')
           | (Inr l, g') \<Rightarrow>
               (bindE (learner_row l x_ids) (\<lambda>tmp_learner. Inr (summary l, tmp_learner)),
                g')))"

text \<open>Lines 113--187: the loop over the diagnoses, with its two accumulators.\<close>

fun fit_loop ::
  "sklearn \<Rightarrow> dataframe \<Rightarrow> real list list \<Rightarrow> string list \<Rightarrow> string list \<Rightarrow>
     (string \<times> cell) list list \<Rightarrow> summary_row list list \<Rightarrow> rng_state \<Rightarrow>
     (error + (string \<times> cell) list list \<times> summary_row list list) \<times> rng_state" where
  "fit_loop sk df X x_ids [] learners summaries g = (Inr (learners, summaries), g)"
| "fit_loop sk df X x_ids (y_name # y_ids) learners summaries g =
     (case fit_diagnosis sk df X x_ids y_name g of
        (Inl e, g') \<Rightarrow> (Inl e, g')
      | (Inr (s, tmp_learner), g') \<Rightarrow>
          fit_loop sk df X x_ids y_ids (learners @ [tmp_learner]) (summaries @ [s]) g')"

text \<open>
  The whole function: the result (the importance table, one dictionary per row with the
  row's index under \<open>''Dx''\<close>, and the summary table) or the exception raised, and the
  state of the process-wide generator afterwards. The state \<open>g\<close> on entry is replaced
  by line 104 before anything draws from it.
\<close>

definition fit_models ::
  "sklearn \<Rightarrow> rng_state \<Rightarrow> dataframe \<Rightarrow> string list \<Rightarrow> string list \<Rightarrow>
     (error + (string \<times> cell) list list \<times> summary_row list) \<times> rng_state" where
  "fit_models sk g df x_ids y_ids =
     (let g0 = np_random_seed 42
      in case getcolumns df x_ids of
           Inl e \<Rightarrow> (Inl e, g0)
         | Inr X \<Rightarrow>
             (case fit_loop sk df X x_ids y_ids [] [] g0 of
                (Inl e, g') \<Rightarrow> (Inl e, g')
              | (Inr (learners, summaries), g') \<Rightarrow>
                  (bindE (pd_concat summaries) (\<lambda>summaries'. Inr (learners, summaries')),
                   g')))"

subsection \<open>The degradation sweep: \<^verbatim>\<open>degrading_fit\<close>\<close>

text \<open>
  Lines 249--251: the feature subsets in the order of their submission to the pool,
  \<^verbatim>\<open>sorted_x_ids[0 : n_questions + 1]\<close> for \<open>n_questions\<close> running through
  \<^verbatim>\<open>range(len(sorted_x_ids))[::-1]\<close>.
\<close>

definition submitted_subsets :: "string list \<Rightarrow> string list list" where
  "submitted_subsets sorted_x_ids =
     map (\<lambda>n_questions. slice_to sorted_x_ids (int n_questions + 1))
         (rev [0..<length sorted_x_ids])"

text \<open>
  Every subset is submitted to the pool as a call of \<^verbatim>\<open>fit_models\<close>, which runs in a
  worker process. \<open>worker_state i\<close> is the state of the generator of the process that
  runs the \<open>i\<close>-th submitted call at the moment the call starts (it depends on what the
  process ran before). The result of a future is the value returned or the exception
  raised by its call.
\<close>

definition submitted_futures ::
  "sklearn \<Rightarrow> (nat \<Rightarrow> rng_state) \<Rightarrow> dataframe \<Rightarrow> string list \<Rightarrow> string list \<Rightarrow>
     (error + (string \<times> cell) list list \<times> summary_row list) list" where
  "submitted_futures sk worker_state df sorted_x_ids y_ids =
     map (\<lambda>(i, xi). fst (fit_models sk (worker_state i) df xi y_ids))
         (enumerate 0 (submitted_subsets sorted_x_ids))"

text \<open>
  \<^verbatim>\<open>as_completed(futures)\<close> yields every future exactly once, in an order that is
  settled at run time and is not the order of submission: \<open>completion\<close> lists the
  submission indices in the order in which the futures are yielded, and
  \<open>as_completed futures completion\<close> says that it is such a listing.
\<close>

definition as_completed :: "'a list \<Rightarrow> nat list \<Rightarrow> bool" where
  "as_completed futures completion \<longleftrightarrow> mset completion = mset [0..<length futures]"

text \<open>Lines 258--259: \<^verbatim>\<open>future.result()\<close> raises what the call raised.\<close>

fun collect_results :: "(error + 'a) list \<Rightarrow> error + 'a list" where
  "collect_results [] = Inr []"
| "collect_results (Inl e # futures) = Inl e"
| "collect_results (Inr v # futures) =
     bindE (collect_results futures) (\<lambda>degraded_tuple. Inr (v # degraded_tuple))"

definition sweep_results ::
  "sklearn \<Rightarrow> int \<Rightarrow> (nat \<Rightarrow> rng_state) \<Rightarrow> nat list \<Rightarrow> dataframe \<Rightarrow> string list \<Rightarrow>
     string list \<Rightarrow> error + ((string \<times> cell) list list \<times> summary_row list) list" where
  "sweep_results sk threads worker_state completion df sorted_x_ids y_ids =
     (if threads \<le> 0 then Inl ValueError
      else let futures = submitted_futures sk worker_state df sorted_x_ids y_ids
           in collect_results (map (\<lambda>i. futures ! i) completion))"

text \<open>
  The whole function; a pool of no worker (\<open>threads \<le> 0\<close>) is refused by
  \<^verbatim>\<open>ProcessPoolExecutor\<close> with ValueError.
\<close>

definition degrading_fit ::
  "sklearn \<Rightarrow> int \<Rightarrow> (nat \<Rightarrow> rng_state) \<Rightarrow> nat list \<Rightarrow> dataframe \<Rightarrow> string list \<Rightarrow>
     string list \<Rightarrow> error + (string \<times> cell) list list \<times> summary_row list" where
  "degrading_fit sk threads worker_state completion df sorted_x_ids y_ids =
     bindE (sweep_results sk threads worker_state completion df sorted_x_ids y_ids)
       (\<lambda>degraded_tuple.
          let degraded_learners = map fst degraded_tuple;
              degraded_summaries = map snd degraded_tuple
          in bindE (pd_concat degraded_summaries) (\<lambda>degraded_summaries'.
             bindE (pd_concat degraded_learners) (\<lambda>degraded_learners'.
               Inr (degraded_learners', degraded_summaries'))))"

subsection \<open>Predicates used in the statements\<close>

text \<open>
  An importance vector over \<open>f\<close> features as scikit-learn's forests produce it: one entry
  per feature, no negative entry, and the entries sum to 1.
\<close>

definition importance_vector :: "nat \<Rightarrow> real list \<Rightarrow> bool" where
  "importance_vector f v \<longleftrightarrow> length v = f \<and> list_all (\<lambda>x. 0 \<le> x) v \<and> sum_list v = 1"

text \<open>The vectors of one outer fold: at least one sub-model, each with such a vector.\<close>

definition good_block :: "nat \<Rightarrow> real list list \<Rightarrow> bool" where
  "good_block f vs \<longleftrightarrow> vs \<noteq> [] \<and> list_all (importance_vector f) vs"

text \<open>
  The library yields such vectors: whenever a fit on a training matrix of \<open>f\<close> columns
  returns, it has at least one calibrated sub-model, and the importances of every
  sub-model are an importance vector over \<open>f\<close> features.
\<close>

definition importances_normalised :: "sklearn \<Rightarrow> nat \<Rightarrow> bool" where
  "importances_normalised sk f \<longleftrightarrow>
     (\<forall>g X_tr y_tr X_te y_te sc g'.
        list_all (\<lambda>r. length r = f) X_tr \<and>
        fit_and_score sk g X_tr y_tr X_te y_te = (Inr sc, g') \<longrightarrow>
        good_block f (feature_importances sc))"

text \<open>
  The block of sub-model vectors of an outer fold: the importances that a fit on the
  training partition of the fold (scored on its test partition) returned.
\<close>

definition fold_block ::
  "sklearn \<Rightarrow> real list list \<Rightarrow> int list \<Rightarrow> nat list \<times> nat list \<Rightarrow> real list list \<Rightarrow> bool" where
  "fold_block sk X y idx block \<longleftrightarrow>
     (\<exists>X_tr y_tr X_te y_te g sc g'.
        take_indices X (fst idx) = Inr X_tr \<and> take_indices y (fst idx) = Inr y_tr \<and>
        take_indices X (snd idx) = Inr X_te \<and> take_indices y (snd idx) = Inr y_te \<and>
        fit_and_score sk g X_tr y_tr X_te y_te = (Inr sc, g') \<and>
        block = feature_importances sc)"

text \<open>A row of the importance table for a diagnosis: its label, then one importance per feature.\<close>

definition table_row :: "string list \<Rightarrow> string \<Rightarrow> (string \<times> cell) list \<Rightarrow> bool" where
  "table_row x_ids y_name row \<longleftrightarrow>
     (\<exists>imp. row = (''Dx'', Str y_name) # zip x_ids (map Num imp) \<and>
        importance_vector (length x_ids) imp)"

text \<open>Every outer fold contributes \<open>k\<close> sub-model vectors, each of length \<open>f\<close>.\<close>

definition uniform_blocks :: "nat \<Rightarrow> nat \<Rightarrow> real list list list \<Rightarrow> bool" where
  "uniform_blocks k f nested \<longleftrightarrow>
     list_all (\<lambda>block. length block = k \<and> list_all (\<lambda>v. length v = f) block) nested"

subsection \<open>A small dataset and a library for examples\<close>

text \<open>
  Four rows with the features \<open>q1\<close>, \<open>q2\<close>, \<open>q3\<close>, the diagnosis \<open>dx1\<close> with two samples
  of each class and the diagnosis \<open>dx2\<close> with no positive sample.
\<close>

definition example_row :: "real \<Rightarrow> real \<Rightarrow> real \<Rightarrow> real \<Rightarrow> real \<Rightarrow> string \<Rightarrow> real" where
  "example_row a b c d e name =
     (if name = ''q1'' then a else if name = ''q2'' then b else if name = ''q3'' then c
      else if name = ''dx1'' then d else e)"

definition example_df :: dataframe where
  "example_df =
     \<lparr>columns = [''q1'', ''q2'', ''q3'', ''dx1'', ''dx2''],
      rows = [example_row 0 1 2 0 0, example_row 2 0 1 1 0,
              example_row 1 1 0 0 0, example_row 2 2 2 1 0]\<rparr>"

text \<open>
  A library that splits into two folds and whose every fit has two sub-models, one with
  uniform importances and one with all importance on the first feature; a fit draws once
  from the generator, and a training matrix without rows or without columns is refused.
\<close>

definition example_scores :: "nat \<Rightarrow> fold_scores" where
  "example_scores n =
     \<lparr>train_accuracy = 1, valid_accuracy = 1 / 2,
      feature_importances = [replicate n (1 / real n), 1 # replicate (n - 1) 0],
      predicted_proba = [1 / 2, 1 / 2],
      f1_score = 1 / 2, recall_1 = 1 / 2, recall_0 = 1 / 2,
      lr_positive = Some 1, lr_negative = None\<rparr>"

definition example_sklearn :: sklearn where
  "example_sklearn =
     \<lparr>cv_split = (\<lambda>X y. Inr [([0, 1], [2, 3]), ([2, 3], [0, 1])]),
      fit_and_score = (\<lambda>g X_tr y_tr X_te y_te.
         case X_tr of
           [] \<Rightarrow> (Inl ValueError, g)
         | r # _ \<Rightarrow>
             if r = [] then (Inl ValueError, g)
             else (Inr (example_scores (length r)),
                   case g of Seeded s n \<Rightarrow> Seeded s (Suc n)))\<rparr>"

text \<open>The summary row of \<open>dx1\<close> that this library leads to.\<close>

definition example_summary :: summary_row where
  "example_summary =
     \<lparr>summary_dx = ''dx1'', summary_hc_n = 2, summary_dx_n = 2,
      summary_acc_train = Some 1, summary_acc_valid = Some (1 / 2),
      summary_f1 = Some (1 / 2), summary_sen = Some (1 / 2),
      summary_spe = Some (1 / 2), summary_LRp = Some 1, summary_LRn = None\<rparr>"

section \<open>Properties of the ranking engine\<close>

lemma position_less: "x \<in> set xs \<Longrightarrow> position xs x < length xs"
  unfolding position_def
  by (induction xs) auto

lemma nth_position: "x \<in> set xs \<Longrightarrow> xs ! position xs x = x"
  unfolding position_def
  by (induction xs) auto

lemma position_nth: "distinct xs \<Longrightarrow> i < length xs \<Longrightarrow> position xs (xs ! i) = i"
  unfolding position_def
proof (induction xs arbitrary: i)
  case Nil then show ?case by simp
next
  case (Cons a xs)
  show ?case
  proof (cases i)
    case 0 then show ?thesis by simp
  next
    case (Suc k)
    with Cons.prems have "xs ! k \<in> set xs" "a \<notin> set xs" by auto
    then have "a \<noteq> xs ! k" by auto
    with Suc Cons show ?thesis by simp
  qed
qed

lemma position_unique:
  "distinct xs \<Longrightarrow> j < length xs \<Longrightarrow> xs ! j = x \<Longrightarrow> j = position xs x"
  using position_nth by fastforce

lemma filter_upt_single:
  assumes "p < n" and "\<And>j. j < n \<Longrightarrow> P j \<longleftrightarrow> j = p"
  shows "filter P [0..<n] = [p]"
proof -
  have "[0..<n] = [0..<p] @ [p] @ [Suc p..<n]"
    using assms(1) by (metis append_Cons append_Nil le_add1 less_imp_add_positive upt_add_eq_append upt_rec zero_le)
  moreover have "filter P [0..<p] = []" using assms by (auto simp: filter_empty_conv)
  moreover have "filter P [Suc p..<n] = []" using assms by (auto simp: filter_empty_conv)
  moreover have "P p" using assms by simp
  ultimately show ?thesis by simp
qed

lemma filter_nth_eq_position:
  assumes "distinct xs" "x \<in> set xs"
  shows "filter (\<lambda>j. x = xs ! j) [0..<length xs] = [position xs x]"
proof (rule filter_upt_single)
  show "position xs x < length xs" using assms position_less by metis
  fix j assume "j < length xs"
  then show "(x = xs ! j) = (j = position xs x)"
    using assms position_unique nth_position by metis
qed

lemma where_eq_perm:
  assumes "distinct b" "set a \<subseteq> set b"
  shows "where_eq a b = map (\<lambda>i. (i, position b (a ! i))) [0..<length a]"
proof -
  have row: "\<And>i. i < length a \<Longrightarrow>
          map (\<lambda>j. (i, j)) (filter (\<lambda>j. a ! i = b ! j) [0..<length b]) = [(i, position b (a ! i))]"
    using assms filter_nth_eq_position[of b] by (simp add: subset_iff)
  have "map (\<lambda>i. map (\<lambda>j. (i, j)) (filter (\<lambda>j. a ! i = b ! j) [0..<length b])) [0..<length a]
       = map (\<lambda>i. [(i, position b (a ! i))]) [0..<length a]"
    by (rule map_cong) (simp_all add: row)
  then have "where_eq a b = concat (map (\<lambda>i. [(i, position b (a ! i))]) [0..<length a])"
    unfolding where_eq_def by (rule arg_cong)
  then show ?thesis by simp
qed

lemma avg_rank_perm:
  assumes "distinct b" "set a \<subseteq> set b"
  shows "avg_rank a b = map (\<lambda>i. (real i + real (position b (a ! i))) / 2) [0..<length a]"
  unfolding avg_rank_def where_eq_perm[OF assms] by (simp add: comp_def)

lemma take_indices_perm:
  assumes "mset order = mset [0..<length xs]"
  shows "take_indices xs order = Inr (map (\<lambda>i. xs ! i) order)"
proof -
  have "set order = {0..<length xs}" using assms by (metis mset_eq_setD set_upt)
  then show ?thesis unfolding take_indices_def by (auto simp: list_all_iff)
qed

lemma mset_map_nth_perm:
  assumes "mset order = mset [0..<length xs]"
  shows "mset (map (\<lambda>i. xs ! i) order) = mset xs"
proof -
  have "mset (map (\<lambda>i. xs ! i) order) = image_mset (\<lambda>i. xs ! i) (mset [0..<length xs])"
    using assms by simp
  also have "\<dots> = mset (map (\<lambda>i. xs ! i) [0..<length xs])" by simp
  also have "\<dots> = mset xs" by (simp add: map_nth)
  finally show ?thesis .
qed

lemma slice_to_take: "0 \<le> k \<Longrightarrow> slice_to xs k = take (nat k) xs"
  by (simp add: slice_to_def)

lemma card_union_same_size:
  assumes "finite A" "finite B" "card A = k" "card B = k"
  shows "card (A \<union> B) = k + card (A - B)"
    and "card (B - A) = card (A - B)"
proof -
  have un: "A \<union> B = B \<union> (A - B)" by auto
  have "card (B \<union> (A - B)) = card B + card (A - B)"
    by (rule card_Un_disjoint) (use assms in auto)
  with un assms show "card (A \<union> B) = k + card (A - B)" by simp
  have un': "A \<union> B = A \<union> (B - A)" by auto
  have "card (A \<union> (B - A)) = card A + card (B - A)"
    by (rule card_Un_disjoint) (use assms in auto)
  with un' assms \<open>card (A \<union> B) = k + card (A - B)\<close>
  show "card (B - A) = card (A - B)" by simp
qed

lemma report_count:
  assumes da: "distinct agg" and dt: "distinct topn"
    and la: "k \<le> int (length agg)" and lt: "k \<le> int (length topn)" and k0: "0 \<le> k"
  shows "fst (consistency_report agg topn k) =
           int (card (set (slice_to agg k) - set (slice_to topn k)))"
    and "card (set (slice_to topn k) - set (slice_to agg k)) =
           card (set (slice_to agg k) - set (slice_to topn k))"
proof -
  let ?A = "set (slice_to agg k)" and ?B = "set (slice_to topn k)"
  have cA: "card ?A = nat k"
    using da la k0 by (simp add: slice_to_take distinct_card)
  have cB: "card ?B = nat k"
    using dt lt k0 by (simp add: slice_to_take distinct_card)
  have u: "card (?A \<union> ?B) = nat k + card (?A - ?B)"
    by (rule card_union_same_size(1)) (simp_all add: cA cB)
  show "card (?B - ?A) = card (?A - ?B)"
    by (rule card_union_same_size(2)[of _ _ "nat k"]) (simp_all add: cA cB)
  have "length (remdups (slice_to agg k @ slice_to topn k)) = card (?A \<union> ?B)"
    by (simp add: length_remdups_card_conv)
  then show "fst (consistency_report agg topn k) = int (card (?A - ?B))"
    using u k0 by (simp add: consistency_report_def Let_def)
qed

lemma report_frac:
  "k \<noteq> 0 \<Longrightarrow> snd (consistency_report agg topn k) =
     Some (real_of_int (fst (consistency_report agg topn k)) / real_of_int k * 100)"
  by (simp add: consistency_report_def Let_def)

lemma fst_calculate_feature_importance:
  "fst (calculate_feature_importance srt learners x_ids k order) =
     consistency_report (aggregate_sort srt learners x_ids) (topn_sort srt learners x_ids) k"
  by (simp add: calculate_feature_importance_def Let_def)

lemma snd_calculate_feature_importance:
  "mset order = mset [0..<length (aggregate_sort srt learners x_ids)] \<Longrightarrow>
   snd (calculate_feature_importance srt learners x_ids k order) =
     Inr (aggregate_sort srt learners x_ids, topn_sort srt learners x_ids,
          map (\<lambda>i. aggregate_sort srt learners x_ids ! i) order)"
  by (simp add: calculate_feature_importance_def Let_def sorted_average_def
      take_indices_perm bindE_def)

lemma length_avg_rank:
  "distinct b \<Longrightarrow> set a \<subseteq> set b \<Longrightarrow> length (avg_rank a b) = length a"
  by (simp add: avg_rank_perm)

lemma avg_rank_mean_position:
  assumes "distinct a" "distinct b" "set a \<subseteq> set b"
  shows "avg_rank a b = map (mean_position a b) a"
proof (rule nth_equalityI)
  show "length (avg_rank a b) = length (map (mean_position a b) a)"
    using assms by (simp add: length_avg_rank)
  fix i assume "i < length (avg_rank a b)"
  then have i: "i < length a" using assms by (simp add: length_avg_rank)
  then show "avg_rank a b ! i = map (mean_position a b) a ! i"
    using assms by (simp add: avg_rank_perm mean_position_def position_nth)
qed

text \<open>
  Claim C10. When the aggregate ordering and the top-N ordering are both permutations of
  the same duplicate-free sequence of features, the function returns, and the fused
  ordering it returns is a permutation of that sequence too: it has the same length, has
  no duplicate and holds the same features. This is so for every index array that
  \<^verbatim>\<open>np.argsort\<close> may return.
\<close>

theorem fused_is_permutation:
  assumes "distinct x_ids"
    and "mset (aggregate_sort srt learners x_ids) = mset x_ids"
    and "mset (topn_sort srt learners x_ids) = mset x_ids"
    and "argsort_returns
           (avg_rank (aggregate_sort srt learners x_ids) (topn_sort srt learners x_ids)) order"
  shows "\<exists>fused. snd (calculate_feature_importance srt learners x_ids k order) =
           Inr (aggregate_sort srt learners x_ids, topn_sort srt learners x_ids, fused) \<and>
           mset fused = mset x_ids \<and> length fused = length x_ids \<and> distinct fused \<and>
           set fused = set x_ids"
proof -
  let ?agg = "aggregate_sort srt learners x_ids" and ?topn = "topn_sort srt learners x_ids"
  have da: "distinct ?agg" and dt: "distinct ?topn"
    using assms(1,2,3) mset_eq_imp_distinct_iff by blast+
  have sub: "set ?agg \<subseteq> set ?topn"
    using mset_eq_setD[OF assms(2)] mset_eq_setD[OF assms(3)] by simp
  have ord: "mset order = mset [0..<length ?agg]"
    using assms(4) by (simp add: argsort_returns_def length_avg_rank[OF dt sub])
  have m: "mset (map (\<lambda>i. ?agg ! i) order) = mset x_ids"
    using mset_map_nth_perm[OF ord] assms(2) by simp
  have "length (map (\<lambda>i. ?agg ! i) order) = length x_ids"
    using m by (rule mset_eq_length)
  moreover have "distinct (map (\<lambda>i. ?agg ! i) order)"
    using m assms(1) mset_eq_imp_distinct_iff by blast
  moreover have "set (map (\<lambda>i. ?agg ! i) order) = set x_ids"
    using m by (rule mset_eq_setD)
  ultimately show ?thesis
    using snd_calculate_feature_importance[OF ord, of k] m by blast
qed

lemma sorted_hd_min:
  assumes "sorted (map f xs)" "x \<in> set xs" "xs \<noteq> []"
  shows "f (xs ! 0) \<le> f x"
proof -
  obtain j where j: "j < length xs" "xs ! j = x" using assms(2) by (auto simp: in_set_conv_nth)
  have "map f xs ! 0 \<le> map f xs ! j"
    using assms(1) j(1) by (intro sorted_nth_mono) simp_all
  then show ?thesis using j assms(3) by simp
qed

text \<open>
  Claim C3, as the code has it. With both orderings permutations of the duplicate-free
  features, the key of the feature at index \<open>i\<close> of the aggregate ordering is the
  arithmetic mean of its position in the aggregate ordering and its position in the top-N
  ordering; along the fused ordering that is returned these mean positions never
  decrease; and a feature that is first in both orderings is first in the fused
  ordering. Nothing is said of the order among features of equal mean position: it is
  whatever \<^verbatim>\<open>np.argsort\<close> makes of the tie.
\<close>

theorem fused_ranking:
  assumes "distinct x_ids"
    and "mset (aggregate_sort srt learners x_ids) = mset x_ids"
    and "mset (topn_sort srt learners x_ids) = mset x_ids"
    and "argsort_returns
           (avg_rank (aggregate_sort srt learners x_ids) (topn_sort srt learners x_ids)) order"
  shows "avg_rank (aggregate_sort srt learners x_ids) (topn_sort srt learners x_ids) =
           map (mean_position (aggregate_sort srt learners x_ids) (topn_sort srt learners x_ids))
               (aggregate_sort srt learners x_ids) \<and>
         (\<exists>fused. snd (calculate_feature_importance srt learners x_ids k order) =
             Inr (aggregate_sort srt learners x_ids, topn_sort srt learners x_ids, fused) \<and>
           sorted (map (mean_position (aggregate_sort srt learners x_ids)
                          (topn_sort srt learners x_ids)) fused) \<and>
           (x_ids \<noteq> [] \<and> aggregate_sort srt learners x_ids ! 0 = topn_sort srt learners x_ids ! 0
              \<longrightarrow> fused ! 0 = aggregate_sort srt learners x_ids ! 0))"
proof -
  let ?agg = "aggregate_sort srt learners x_ids" and ?topn = "topn_sort srt learners x_ids"
  let ?mp = "mean_position ?agg ?topn"
  have da: "distinct ?agg" and dt: "distinct ?topn"
    using assms(1,2,3) mset_eq_imp_distinct_iff by blast+
  have sub: "set ?agg \<subseteq> set ?topn"
    using mset_eq_setD[OF assms(2)] mset_eq_setD[OF assms(3)] by simp
  have keys: "avg_rank ?agg ?topn = map ?mp ?agg"
    by (rule avg_rank_mean_position[OF da dt sub])
  have ord: "mset order = mset [0..<length ?agg]"
    using assms(4) by (simp add: argsort_returns_def length_avg_rank[OF dt sub])
  then have so: "set order = {0..<length ?agg}" by (metis mset_eq_setD set_upt)
  let ?fused = "map (\<lambda>i. ?agg ! i) order"
  have res: "snd (calculate_feature_importance srt learners x_ids k order) =
      Inr (?agg, ?topn, ?fused)"
    by (rule snd_calculate_feature_importance[OF ord])
  have eq: "map (\<lambda>i. avg_rank ?agg ?topn ! i) order = map ?mp ?fused"
    using so by (simp add: keys)
  have srt: "sorted (map ?mp ?fused)"
    using assms(4) eq by (simp add: argsort_returns_def)
  have first: "?fused ! 0 = ?agg ! 0" if ne: "x_ids \<noteq> []" and same: "?agg ! 0 = ?topn ! 0"
  proof -
    have n: "0 < length ?agg" "0 < length ?topn"
      using ne mset_eq_length[OF assms(2)] mset_eq_length[OF assms(3)] by simp_all
    then have one: "order \<noteq> []" "0 \<in> set order" using so by auto
    have p0: "position ?topn (?agg ! 0) = 0"
      using same n dt by (simp add: position_nth)
    have k0: "?mp (?agg ! 0) = 0"
      using p0 n da by (simp add: mean_position_def position_nth)
    have "?mp (?agg ! (order ! 0)) \<le> ?mp (?agg ! 0)"
      using sorted_hd_min[of "\<lambda>i. ?mp (?agg ! i)" order 0] srt one
      by (simp add: comp_def)
    then have le: "?mp (?agg ! (order ! 0)) \<le> 0" using k0 by simp
    have "order ! 0 \<in> set order" using one(1) by simp
    then have lt: "order ! 0 < length ?agg" using so by simp
    have "position ?agg (?agg ! (order ! 0)) = order ! 0"
      using da lt by (simp add: position_nth)
    then have "real (order ! 0) / 2 \<le> ?mp (?agg ! (order ! 0))"
      by (simp add: mean_position_def)
    with le have "order ! 0 = 0" by simp
    then show ?thesis using one by simp
  qed
  show ?thesis
  proof (intro conjI exI[of _ ?fused] impI)
    show "avg_rank ?agg ?topn = map ?mp ?agg" by (rule keys)
    show "snd (calculate_feature_importance srt learners x_ids k order) = Inr (?agg, ?topn, ?fused)"
      by (rule res)
    show "sorted (map ?mp ?fused)" by (rule srt)
    assume "x_ids \<noteq> [] \<and> ?agg ! 0 = ?topn ! 0"
    then show "?fused ! 0 = ?agg ! 0" using first by blast
  qed
qed

lemma fixed_sorting_simps [simp]:
  "aggregate_sort (fixed_sorting agg topn) learners x_ids = agg"
  "topn_sort (fixed_sorting agg topn) learners x_ids = topn"
  by (simp_all add: fixed_sorting_def)

text \<open>
  Claim C1, as the code has it. With both orderings permutations of the duplicate-free
  features and \<open>0 \<le> top_n \<le>\<close> the number of features, the count that is reported is the
  size of the union of the two top-\<open>top_n\<close> slices less \<open>top_n\<close>: the number of features
  of one slice that are missing from the other, which is half the size of the symmetric
  difference. The percentage reported (for \<open>top_n > 0\<close>) is that count divided by
  \<open>top_n\<close>, times 100, and the count is 0 exactly when the two slices hold the same
  features.
\<close>

theorem consistency_report_counts:
  assumes "distinct x_ids"
    and "mset (aggregate_sort srt learners x_ids) = mset x_ids"
    and "mset (topn_sort srt learners x_ids) = mset x_ids"
    and "0 \<le> k" and "k \<le> int (length x_ids)"
  shows "let A = set (slice_to (aggregate_sort srt learners x_ids) k);
             B = set (slice_to (topn_sort srt learners x_ids) k);
             report = fst (calculate_feature_importance srt learners x_ids k order)
         in fst report = int (card (A \<union> B)) - k \<and>
            fst report = int (card (A - B)) \<and>
            fst report = int (card (B - A)) \<and>
            2 * fst report = int (card ((A - B) \<union> (B - A))) \<and>
            (0 < k \<longrightarrow> snd report = Some (real_of_int (fst report) / real_of_int k * 100)) \<and>
            (fst report = 0 \<longleftrightarrow> A = B)"
proof -
  let ?agg = "aggregate_sort srt learners x_ids" and ?topn = "topn_sort srt learners x_ids"
  let ?A = "set (slice_to ?agg k)" and ?B = "set (slice_to ?topn k)"
  let ?r = "consistency_report ?agg ?topn k"
  have da: "distinct ?agg" and dt: "distinct ?topn"
    using assms(1,2,3) mset_eq_imp_distinct_iff by blast+
  have la: "k \<le> int (length ?agg)" and lt: "k \<le> int (length ?topn)"
    using assms(5) mset_eq_length[OF assms(2)] mset_eq_length[OF assms(3)] by simp_all
  have d1: "fst ?r = int (card (?A - ?B))"
    and sym: "card (?B - ?A) = card (?A - ?B)"
    using report_count[OF da dt la lt assms(4)] by simp_all
  have cA: "card ?A = nat k"
    using da la assms(4) by (simp add: slice_to_take distinct_card)
  have cB: "card ?B = nat k"
    using dt lt assms(4) by (simp add: slice_to_take distinct_card)
  have u: "card (?A \<union> ?B) = nat k + card (?A - ?B)"
    by (rule card_union_same_size(1)) (simp_all add: cA cB)
  have "card ((?A - ?B) \<union> (?B - ?A)) = card (?A - ?B) + card (?B - ?A)"
    by (rule card_Un_disjoint) auto
  then have d2: "2 * fst ?r = int (card ((?A - ?B) \<union> (?B - ?A)))"
    using d1 sym by simp
  have zero: "fst ?r = 0 \<longleftrightarrow> ?A = ?B"
  proof
    assume "fst ?r = 0"
    then have "card (?A - ?B) = 0" "card (?B - ?A) = 0" using d1 sym by simp_all
    then have "?A - ?B = {}" "?B - ?A = {}" by simp_all
    then show "?A = ?B" by blast
  next
    assume "?A = ?B" then show "fst ?r = 0" using d1 by simp
  qed
  have fr: "0 < k \<longrightarrow> snd ?r = Some (real_of_int (fst ?r) / real_of_int k * 100)"
    using report_frac[of k ?agg ?topn] by simp
  have du: "fst ?r = int (card (?A \<union> ?B)) - k" using d1 u assms(4) by simp
  show ?thesis
    unfolding Let_def fst_calculate_feature_importance
    using du d1 sym d2 fr zero by simp
qed

theorem consistency_report_counts_witness:
  "fst (calculate_feature_importance (fixed_sorting [''a'', ''b'', ''c''] [''a'', ''c'', ''b''])
          () [''a'', ''b'', ''c''] 2 [0, 1, 2]) = (1, Some 50)"
proof -
  let ?x = "[''a'', ''b'', ''c'']" and ?t = "[''a'', ''c'', ''b'']"
  have h1: "distinct ?x" by simp
  have h2: "mset (aggregate_sort (fixed_sorting ?x ?t) () ?x) = mset ?x" by simp
  have h3: "mset (topn_sort (fixed_sorting ?x ?t) () ?x) = mset ?x" by simp
  have h4: "(0::int) \<le> 2" and h5: "2 \<le> int (length ?x)" by simp_all
  have s: "card (set (slice_to ?x 2) - set (slice_to ?t 2)) = 1"
    by (simp add: slice_to_def numeral_2_eq_2)
  from consistency_report_counts[OF h1 h2 h3 h4 h5, of "[0, 1, 2]"] s
  show ?thesis by (simp add: Let_def prod_eq_iff)
qed

text \<open>
  The count is not the size of the symmetric difference: for the slices \<open>[a, b]\<close> and
  \<open>[a, c]\<close> the report says 1, and the symmetric difference \<open>{b, c}\<close> has 2 elements.
\<close>

theorem consistency_report_counterexample:
  "fst (fst (calculate_feature_importance
               (fixed_sorting [''a'', ''b'', ''c''] [''a'', ''c'', ''b''])
               () [''a'', ''b'', ''c''] 2 [0, 1, 2])) = 1 \<and>
   card ((set (slice_to [''a'', ''b'', ''c''] 2) - set (slice_to [''a'', ''c'', ''b''] 2)) \<union>
         (set (slice_to [''a'', ''c'', ''b''] 2) - set (slice_to [''a'', ''b'', ''c''] 2))) = 2"
  by (simp add: calculate_feature_importance_def consistency_report_def slice_to_def
      numeral_2_eq_2 Let_def insert_Diff_if)

lemma avg_rank18: "avg_rank features18 (rev features18) = replicate 18 (17 / 2)"
  unfolding avg_rank_def where_eq_def features18_def
  by (simp add: upt_rec numeral_eq_Suc)

lemma argsort18: "argsort_returns (avg_rank features18 (rev features18)) order18"
  unfolding avg_rank18 unfolding argsort_returns_def order18_def
  by (simp add: upt_rec numeral_eq_Suc)

lemma mean_position18:
  "map (mean_position features18 (rev features18)) features18 = replicate 18 (17 / 2)"
  unfolding features18_def mean_position_def position_def
  by (simp add: numeral_eq_Suc)

lemma sort_key_const: "\<forall>x\<in>set xs. f x = c \<Longrightarrow> sort_key f xs = xs"
proof (induction xs)
  case Nil then show ?case by simp
next
  case (Cons a xs)
  then have "sort_key f xs = xs" by simp
  moreover have "insort_key f a xs = a # xs" using Cons.prems by (cases xs) simp_all
  ultimately show ?case by simp
qed

lemma fused_order_spec18: "fused_order_spec features18 (rev features18) = features18"
proof -
  have "\<forall>x\<in>set features18. mean_position features18 (rev features18) x = 17 / 2"
    using mean_position18 by (metis (no_types, lifting) in_set_replicate imageI list.set_map)
  then show ?thesis unfolding fused_order_spec_def by (rule sort_key_const)
qed

text \<open>
  Ties are not broken by the aggregate ordering. With 18 features and a top-N ordering
  that is the reverse of the aggregate ordering, every feature has the mean position
  8.5. The index array \<open>order18\<close> is a result that \<^verbatim>\<open>np.argsort\<close> may return for these
  keys (a quicksort exchanges equal keys across its pivot when it partitions, and numpy
  partitions arrays of more than 16 elements), and the fused ordering is then not the
  aggregate ordering, which is what breaking the ties by aggregate position would give.
\<close>

theorem fused_tie_break_counterexample:
  "argsort_returns (avg_rank features18 (rev features18)) order18 \<and>
   snd (calculate_feature_importance (fixed_sorting features18 (rev features18)) ()
          features18 5 order18) =
     Inr (features18, rev features18,
          [''a'', ''p'', ''o'', ''n'', ''m'', ''l'', ''k'', ''j'', ''i'',
           ''h'', ''g'', ''f'', ''e'', ''d'', ''c'', ''b'', ''q'', ''r'']) \<and>
   fused_order_spec features18 (rev features18) =
     [''a'', ''b'', ''c'', ''d'', ''e'', ''f'', ''g'', ''h'', ''i'',
      ''j'', ''k'', ''l'', ''m'', ''n'', ''o'', ''p'', ''q'', ''r''] \<and>
   snd (calculate_feature_importance (fixed_sorting features18 (rev features18)) ()
          features18 5 order18) \<noteq>
     Inr (features18, rev features18, fused_order_spec features18 (rev features18))"
proof (intro conjI)
  show "snd (calculate_feature_importance (fixed_sorting features18 (rev features18)) ()
          features18 5 order18) \<noteq>
     Inr (features18, rev features18, fused_order_spec features18 (rev features18))"
    unfolding fused_order_spec18
    by (simp add: calculate_feature_importance_def sorted_average_def take_indices_def
        bindE_def Let_def features18_def order18_def)
  show "argsort_returns (avg_rank features18 (rev features18)) order18" by (rule argsort18)
  show "fused_order_spec features18 (rev features18) =
     [''a'', ''b'', ''c'', ''d'', ''e'', ''f'', ''g'', ''h'', ''i'',
      ''j'', ''k'', ''l'', ''m'', ''n'', ''o'', ''p'', ''q'', ''r'']"
    unfolding fused_order_spec18 by (simp add: features18_def)
  show "snd (calculate_feature_importance (fixed_sorting features18 (rev features18)) ()
          features18 5 order18) =
     Inr (features18, rev features18,
          [''a'', ''p'', ''o'', ''n'', ''m'', ''l'', ''k'', ''j'', ''i'',
           ''h'', ''g'', ''f'', ''e'', ''d'', ''c'', ''b'', ''q'', ''r''])"
    by (simp add: calculate_feature_importance_def sorted_average_def take_indices_def
        bindE_def Let_def features18_def order18_def)
qed

theorem fused_ranking_witness:
  "avg_rank [''q2'', ''q1'', ''q3''] [''q2'', ''q3'', ''q1''] = [0, 3 / 2, 3 / 2] \<and>
   snd (calculate_feature_importance
          (fixed_sorting [''q2'', ''q1'', ''q3''] [''q2'', ''q3'', ''q1''])
          () [''q1'', ''q2'', ''q3''] 2 [0, 2, 1]) =
     Inr ([''q2'', ''q1'', ''q3''], [''q2'', ''q3'', ''q1''], [''q2'', ''q3'', ''q1''])"
proof -
  let ?x = "[''q1'', ''q2'', ''q3'']" and ?a = "[''q2'', ''q1'', ''q3'']"
    and ?t = "[''q2'', ''q3'', ''q1'']"
  have k: "avg_rank ?a ?t = [0, 3 / 2, 3 / 2]"
    unfolding avg_rank_def where_eq_def by (simp add: upt_rec numeral_eq_Suc)
  have h1: "distinct ?x" by simp
  have h2: "mset (aggregate_sort (fixed_sorting ?a ?t) () ?x) = mset ?x" by simp
  have h3: "mset (topn_sort (fixed_sorting ?a ?t) () ?x) = mset ?x" by simp
  have h4: "argsort_returns (avg_rank (aggregate_sort (fixed_sorting ?a ?t) () ?x)
              (topn_sort (fixed_sorting ?a ?t) () ?x)) [0, 2, 1]"
    by (simp add: k argsort_returns_def upt_rec numeral_eq_Suc)
  from fused_ranking[OF h1 h2 h3 h4, of 2] k
  show ?thesis
    by (simp add: calculate_feature_importance_def sorted_average_def take_indices_def
        bindE_def Let_def)
qed

theorem fused_is_permutation_witness:
  "snd (calculate_feature_importance
          (fixed_sorting [''q2'', ''q1'', ''q3''] [''q2'', ''q3'', ''q1''])
          () [''q1'', ''q2'', ''q3''] 2 [0, 1, 2]) =
     Inr ([''q2'', ''q1'', ''q3''], [''q2'', ''q3'', ''q1''], [''q2'', ''q1'', ''q3'']) \<and>
   mset [''q2'', ''q1'', ''q3''] = mset [''q1'', ''q2'', ''q3'']"
proof -
  let ?x = "[''q1'', ''q2'', ''q3'']" and ?a = "[''q2'', ''q1'', ''q3'']"
    and ?t = "[''q2'', ''q3'', ''q1'']"
  have k: "avg_rank ?a ?t = [0, 3 / 2, 3 / 2]"
    unfolding avg_rank_def where_eq_def by (simp add: upt_rec numeral_eq_Suc)
  have h1: "distinct ?x" by simp
  have h2: "mset (aggregate_sort (fixed_sorting ?a ?t) () ?x) = mset ?x" by simp
  have h3: "mset (topn_sort (fixed_sorting ?a ?t) () ?x) = mset ?x" by simp
  have h4: "argsort_returns (avg_rank (aggregate_sort (fixed_sorting ?a ?t) () ?x)
              (topn_sort (fixed_sorting ?a ?t) () ?x)) [0, 1, 2]"
    by (simp add: k argsort_returns_def upt_rec numeral_eq_Suc)
  from fused_is_permutation[OF h1 h2 h3 h4, of 2]
  show ?thesis
    by (simp add: calculate_feature_importance_def sorted_average_def take_indices_def
        bindE_def Let_def)
qed

section \<open>Properties of model fitting\<close>

lemma fit_models_reseeds:
  "fit_models sk g df x_ids y_ids = fit_models sk (np_random_seed 42) df x_ids y_ids"
  by (simp add: fit_models_def)

lemma length_unique_counts: "length (unique_counts y) = card (set y)"
  by (simp add: unique_counts_def length_remdups_card_conv)

lemma one_class_counts: "set y \<subseteq> {c} \<Longrightarrow> length (unique_counts y) < 2"
proof -
  assume "set y \<subseteq> {c}"
  then have "card (set y) \<le> card {c}" by (intro card_mono) simp_all
  then show ?thesis by (simp add: length_unique_counts)
qed

lemma bindE_simps [simp]:
  "bindE (Inl e) f = Inl e"
  "bindE (Inr v) f = f v"
  by (simp_all add: bindE_def)

lemma fit_diagnosis_one_class:
  assumes "getcolumn df y_name = Inr col" and "set (map astype_int col) \<subseteq> {c}"
  shows "fit_diagnosis sk df X x_ids y_name g = (Inl IndexError, g)"
proof -
  have "length (unique_counts (map astype_int col)) < 2"
    using assms(2) by (rule one_class_counts)
  then have "getitem (unique_counts (map astype_int col)) 0 = Inl IndexError \<or>
     (\<exists>hc. getitem (unique_counts (map astype_int col)) 0 = Inr hc \<and>
        getitem (unique_counts (map astype_int col)) 1 = Inl IndexError)"
    by (auto simp: getitem_def)
  then show ?thesis
    using assms(1) by (auto simp: fit_diagnosis_def Let_def)
qed

lemma fit_loop_one_class:
  assumes "y_name \<in> set y_ids" and "getcolumn df y_name = Inr col"
    and "set (map astype_int col) \<subseteq> {c}"
  shows "\<exists>e. fst (fit_loop sk df X x_ids y_ids learners summaries g) = Inl e"
  using assms(1)
proof (induction y_ids arbitrary: learners summaries g)
  case Nil
  then show ?case by simp
next
  case (Cons a y_ids)
  show ?case
  proof (cases "a = y_name")
    case True
    then show ?thesis
      using fit_diagnosis_one_class[OF assms(2,3)] by simp
  next
    case False
    with Cons.prems have "y_name \<in> set y_ids" by simp
    from Cons.IH[OF this] show ?thesis
      by (auto split: prod.splits sum.splits)
  qed
qed

lemma getcolumns_cases:
  "getcolumns df x_ids = Inl KeyError \<or>
   getcolumns df x_ids = Inr (map (\<lambda>r. map r x_ids) (rows df))"
  by (simp add: getcolumns_def)

text \<open>
  Claim C2, as the code has it. A diagnosis whose target vector has samples of one class
  only (or no sample at all) is not signalled by a not-a-number. Reading the two class
  counts (line 120) raises IndexError: a call whose diagnoses include such a column
  raises, and when the column comes first the exception is this IndexError, raised
  before anything is fitted (the generator is still in its seeded state) and whatever
  the library would do; the diagnoses after it are not fitted.
\<close>

theorem one_class_target_aborts:
  assumes "getcolumn df y_name = Inr col" and "set (map astype_int col) \<subseteq> {c}"
  shows "(y_name \<in> set y_ids \<longrightarrow> (\<exists>e. fst (fit_models sk g df x_ids y_ids) = Inl e)) \<and>
         (list_all (\<lambda>name. name \<in> set (columns df)) x_ids \<longrightarrow>
            fit_models sk g df x_ids (y_name # y_ids) = (Inl IndexError, np_random_seed 42))"
proof (intro conjI impI)
  assume mem: "y_name \<in> set y_ids"
  show "\<exists>e. fst (fit_models sk g df x_ids y_ids) = Inl e"
  proof (cases "getcolumns df x_ids")
    case (Inl e)
    then show ?thesis by (simp add: fit_models_def)
  next
    case (Inr X)
    from fit_loop_one_class[OF mem assms, of sk X x_ids "[]" "[]" "np_random_seed 42"]
    obtain e where "fst (fit_loop sk df X x_ids y_ids [] [] (np_random_seed 42)) = Inl e" ..
    then show ?thesis using Inr
      by (auto simp: fit_models_def split: prod.splits sum.splits)
  qed
next
  assume "list_all (\<lambda>name. name \<in> set (columns df)) x_ids"
  then show "fit_models sk g df x_ids (y_name # y_ids) = (Inl IndexError, np_random_seed 42)"
    using fit_diagnosis_one_class[OF assms]
    by (simp add: fit_models_def getcolumns_def)
qed

lemma sum_list_swap:
  "sum_list (map (\<lambda>j. sum_list (map (\<lambda>r. h r j) rs)) js) =
   sum_list (map (\<lambda>r. sum_list (map (\<lambda>j. (h r j :: real)) js)) rs)"
proof (induction rs)
  case Nil
  then show ?case by simp
next
  case (Cons r rs)
  have "sum_list (map (\<lambda>j. sum_list (map (\<lambda>r. h r j) (r # rs))) js) =
        sum_list (map (\<lambda>j. h r j + sum_list (map (\<lambda>r. h r j) rs)) js)" by simp
  also have "\<dots> = sum_list (map (\<lambda>j. h r j) js) +
        sum_list (map (\<lambda>j. sum_list (map (\<lambda>r. h r j) rs)) js)"
    by (rule sum_list_addf)
  finally show ?case using Cons.IH by simp
qed

lemma sum_list_div_const:
  "sum_list (map (\<lambda>x. h x / c) xs) = sum_list (map h xs) / (c :: real)"
  by (induction xs) (simp_all add: add_divide_distrib)

lemma sum_list_nth_upt: "sum_list (map (\<lambda>j. r ! j) [0..<length r]) = sum_list r"
  by (simp add: map_nth)

lemma length_mean_axis0: "length (mean_axis0 m) = length (hd m)"
  by (simp add: mean_axis0_def)

lemma nth_mean_axis0:
  "j < length (hd m) \<Longrightarrow>
     mean_axis0 m ! j = sum_list (map (\<lambda>r. r ! j) m) / real (length m)"
  by (simp add: mean_axis0_def)

lemma mean_axis0_importance_vector:
  assumes "m \<noteq> []" and "list_all (importance_vector f) m"
  shows "importance_vector f (mean_axis0 m)"
proof -
  have len: "\<And>r. r \<in> set m \<Longrightarrow> length r = f"
    and nn: "\<And>r x. r \<in> set m \<Longrightarrow> x \<in> set r \<Longrightarrow> 0 \<le> x"
    and one: "\<And>r. r \<in> set m \<Longrightarrow> sum_list r = 1"
    using assms(2) by (auto simp: list_all_iff importance_vector_def)
  have hd: "length (hd m) = f" using assms(1) len by simp
  have l: "length (mean_axis0 m) = f" by (simp add: length_mean_axis0 hd)
  have pos: "list_all (\<lambda>x. 0 \<le> x) (mean_axis0 m)"
    unfolding list_all_iff mean_axis0_def hd
  proof
    fix x assume "x \<in> set (map (\<lambda>j. sum_list (map (\<lambda>r. r ! j) m) / real (length m)) [0..<f])"
    then obtain j where j: "j < f" and x: "x = sum_list (map (\<lambda>r. r ! j) m) / real (length m)"
      by auto
    have "0 \<le> r ! j" if "r \<in> set m" for r
    proof -
      have "r ! j \<in> set r" using len[OF that] j by simp
      then show ?thesis using nn[OF that] by simp
    qed
    then have "0 \<le> sum_list (map (\<lambda>r. r ! j) m)"
      by (intro sum_list_nonneg) auto
    then show "0 \<le> x" unfolding x by simp
  qed
  have "sum_list (mean_axis0 m) =
        sum_list (map (\<lambda>j. sum_list (map (\<lambda>r. r ! j) m)) [0..<f]) / real (length m)"
    unfolding mean_axis0_def hd by (rule sum_list_div_const)
  also have "sum_list (map (\<lambda>j. sum_list (map (\<lambda>r. r ! j) m)) [0..<f]) =
        sum_list (map (\<lambda>r. sum_list (map (\<lambda>j. r ! j) [0..<f])) m)"
    by (rule sum_list_swap)
  also have "map (\<lambda>r. sum_list (map (\<lambda>j. r ! j) [0..<f])) m = map (\<lambda>r. 1) m"
  proof (rule map_cong[OF refl])
    fix r assume r: "r \<in> set m"
    then have "sum_list (map (\<lambda>j. r ! j) [0..<f]) = sum_list r"
      using sum_list_nth_upt[of r] len by simp
    then show "sum_list (map (\<lambda>j. r ! j) [0..<f]) = 1" using one r by simp
  qed
  also have "sum_list (map (\<lambda>r. 1::real) m) = real (length m)"
    by (simp add: sum_list_triv)
  finally have "sum_list (mean_axis0 m) = 1" using assms(1) by simp
  then show ?thesis using l pos by (simp add: importance_vector_def)
qed

lemma concat_good_blocks:
  assumes "list_all (good_block f) blocks"
  shows "concat (map atleast_2d blocks) = concat blocks"
    and "list_all (importance_vector f) (concat blocks)"
    and "blocks \<noteq> [] \<Longrightarrow> concat blocks \<noteq> []"
proof -
  have "map atleast_2d blocks = blocks"
    using assms by (intro map_idI) (auto simp: list_all_iff good_block_def atleast_2d_def)
  then show "concat (map atleast_2d blocks) = concat blocks" by simp
  show "list_all (importance_vector f) (concat blocks)"
    using assms by (auto simp: list_all_iff good_block_def)
  show "blocks \<noteq> [] \<Longrightarrow> concat blocks \<noteq> []"
    using assms by (cases blocks) (auto simp: good_block_def)
qed

lemma vstack_good_blocks:
  assumes "blocks \<noteq> []" and "list_all (good_block f) blocks"
  shows "vstack blocks = Inr (concat blocks)"
proof -
  have iv: "list_all (importance_vector f) (concat blocks)"
    by (rule concat_good_blocks(2)[OF assms(2)])
  have ne: "concat blocks \<noteq> []" by (rule concat_good_blocks(3)[OF assms(2,1)])
  have "length (hd (concat blocks)) = f"
    using iv ne by (cases "concat blocks") (simp_all add: importance_vector_def)
  then have "list_all (\<lambda>r. length r = length (hd (concat blocks))) (concat blocks)"
    using iv by (simp add: list_all_iff importance_vector_def)
  then show ?thesis
    using assms(1) by (simp add: vstack_def concat_good_blocks(1)[OF assms(2)] Let_def)
qed

lemma importance_means_good_blocks:
  assumes "blocks \<noteq> []" and "list_all (good_block f) blocks"
  shows "\<exists>imp. importance_means blocks = Inr imp \<and> importance_vector f imp"
  using vstack_good_blocks[OF assms] mean_axis0_importance_vector
    concat_good_blocks(2,3)[OF assms(2)] assms(1)
  by (simp add: importance_means_def)

lemma importance_means_Nil: "importance_means [] = Inl ValueError"
  by (simp add: importance_means_def vstack_def)

lemma take_indices_rows:
  assumes "take_indices X idx = Inr X'" and "list_all P X"
  shows "list_all P X'"
proof -
  have "list_all (\<lambda>i. i < length X) idx" and "X' = map (\<lambda>i. X ! i) idx"
    using assms(1) by (auto simp: take_indices_def split: if_splits)
  then show ?thesis using assms(2) by (auto simp: list_all_iff)
qed

lemma record_fold_simps [simp]:
  "dx (record_fold l sc y_te) = dx l"
  "hc_n (record_fold l sc y_te) = hc_n l"
  "dx_n (record_fold l sc y_te) = dx_n l"
  "fi (record_fold l sc y_te) = fi l @ [feature_importances sc]"
  by (simp_all add: record_fold_def)

lemma cv_loop_blocks:
  assumes lib: "\<And>g X_tr y_tr X_te y_te sc g'.
      list_all (\<lambda>r. length r = f) X_tr \<Longrightarrow>
      fit_and_score sk g X_tr y_tr X_te y_te = (Inr sc, g') \<Longrightarrow> P (feature_importances sc)"
    and "list_all (\<lambda>r. length r = f) X"
    and "cv_loop sk X y folds l g = (Inr l', g')"
  shows "dx l' = dx l \<and>
         (\<exists>blocks. fi l' = fi l @ blocks \<and> length blocks = length folds \<and>
            list_all P blocks)"
  using assms(3)
proof (induction folds arbitrary: l g)
  case Nil
  then show ?case by simp
next
  case (Cons fold folds)
  obtain idx_train idx_test where fold: "fold = (idx_train, idx_test)" by (cases fold)
  from Cons.prems fold obtain X_tr y_tr X_te y_te sc g1 where
    xtr: "take_indices X idx_train = Inr X_tr"
    and call: "fit_and_score sk g X_tr y_tr X_te y_te = (Inr sc, g1)"
    and rest: "cv_loop sk X y folds (record_fold l sc y_te) g1 = (Inr l', g')"
    by (auto simp: bindE_def split: sum.splits prod.splits)
  have "list_all (\<lambda>r. length r = f) X_tr"
    by (rule take_indices_rows[OF xtr assms(2)])
  then have gb: "P (feature_importances sc)" using call by (rule lib)
  from Cons.IH[OF rest] obtain blocks where
    b: "dx l' = dx l" "fi l' = fi l @ [feature_importances sc] @ blocks"
       "length blocks = length folds" "list_all P blocks"
    by auto
  show ?case
  proof (intro conjI exI[of _ "feature_importances sc # blocks"])
    show "dx l' = dx l" by (rule b(1))
    show "fi l' = fi l @ feature_importances sc # blocks" using b(2) by simp
    show "length (feature_importances sc # blocks) = length (fold # folds)" using b(3) by simp
    show "list_all P (feature_importances sc # blocks)" using gb b(4) by simp
  qed
qed

lemma cv_loop_fi:
  assumes "importances_normalised sk f" and "list_all (\<lambda>r. length r = f) X"
    and "cv_loop sk X y folds l g = (Inr l', g')"
  shows "dx l' = dx l \<and>
         (\<exists>blocks. fi l' = fi l @ blocks \<and> length blocks = length folds \<and>
            list_all (good_block f) blocks)"
  by (rule cv_loop_blocks[OF _ assms(2,3)])
    (use assms(1) in \<open>unfold importances_normalised_def, blast\<close>)

lemma update_fresh: "k \<notin> fst ` set al \<Longrightarrow> AList.update k v al = al @ [(k, v)]"
  by (induction al) auto

lemma fold_update_fresh:
  assumes "distinct (map fst kvs)" and "fst ` set kvs \<inter> fst ` set al = {}"
  shows "fold (\<lambda>(k, v) d. AList.update k (Num v) d) kvs al =
         al @ map (\<lambda>(k, v). (k, Num v)) kvs"
  using assms
proof (induction kvs arbitrary: al)
  case Nil
  then show ?case by simp
next
  case (Cons kv kvs)
  obtain k v where kv: "kv = (k, v)" by (cases kv)
  have fresh: "k \<notin> fst ` set al" using Cons.prems(2) kv by auto
  have d: "distinct (map fst kvs)" using Cons.prems(1) by simp
  have "fst ` set kvs \<inter> fst ` set (al @ [(k, Num v)]) = {}"
    using Cons.prems kv by auto
  from Cons.IH[OF d this] show ?case
    using kv by (simp add: update_fresh[OF fresh])
qed

lemma importance_row_distinct:
  assumes "distinct x_ids" and "''Dx'' \<notin> set x_ids" and "length means = length x_ids"
  shows "importance_row name x_ids means = (''Dx'', Str name) # zip x_ids (map Num means)"
proof -
  have m: "map fst (zip x_ids means) = x_ids" using assms(3) by simp
  have s: "fst ` set (zip x_ids means) = set x_ids"
    using m by (metis list.set_map)
  have "fold (\<lambda>(k, v) d. AList.update k (Num v) d) (zip x_ids means) [(''Dx'', Str name)] =
        [(''Dx'', Str name)] @ map (\<lambda>(k, v). (k, Num v)) (zip x_ids means)"
    by (rule fold_update_fresh) (use assms m s in auto)
  moreover have "map (\<lambda>(k, v). (k, Num v)) (zip x_ids means) = zip x_ids (map Num means)"
    by (simp add: zip_map2)
  ultimately show ?thesis by (simp add: importance_row_def)
qed

lemma getcolumns_rows:
  "getcolumns df x_ids = Inr X \<Longrightarrow> list_all (\<lambda>r. length r = length x_ids) X"
  by (auto simp: getcolumns_def list_all_iff split: if_splits)

lemma fit_diagnosis_Inr:
  assumes "fit_diagnosis sk df X x_ids y_name g = (Inr (s, row), g')"
  shows "\<exists>y hc pt folds l means.
           cv_loop sk X y folds (Learner y_name hc pt x_ids) g = (Inr l, g') \<and>
           importance_means (fi l) = Inr means \<and>
           s = summary l \<and> row = importance_row (dx l) x_ids means \<and>
           learner_row l x_ids = Inr row"
proof -
  obtain r where r: "bindE (getcolumn df y_name) (\<lambda>col.
             let y = map astype_int col; uc = unique_counts y
             in bindE (getitem uc 0) (\<lambda>hc.
                bindE (getitem uc 1) (\<lambda>pt.
                bindE (cv_split sk X y) (\<lambda>folds.
                  Inr (y, Learner y_name hc pt x_ids, folds))))) = r" by simp
  show ?thesis
  proof (cases r)
    case (Inl e)
    with assms r show ?thesis by (simp add: fit_diagnosis_def)
  next
    case (Inr t)
    obtain y l0 folds where t: "t = (y, l0, folds)" by (cases t)
    have "\<exists>hc pt. l0 = Learner y_name hc pt x_ids"
      using r Inr t by (auto simp: bindE_def Let_def split: sum.splits)
    then obtain hc pt where l0: "l0 = Learner y_name hc pt x_ids" by blast
    obtain res g1 where loop: "cv_loop sk X y folds l0 g = (res, g1)" by (cases "cv_loop sk X y folds l0 g")
    show ?thesis
    proof (cases res)
      case (Inl e)
      with assms r \<open>r = Inr t\<close> t loop show ?thesis by (simp add: fit_diagnosis_def)
    next
      case (Inr l)
      with assms r \<open>r = Inr t\<close> t loop
      have g1: "g1 = g'" and fin: "bindE (learner_row l x_ids)
               (\<lambda>tmp_learner. Inr (summary l, tmp_learner)) = Inr (s, row)"
        by (simp_all add: fit_diagnosis_def)
      from fin have lr: "learner_row l x_ids = Inr row" and s: "s = summary l"
        by (cases "learner_row l x_ids"; simp)+
      from lr obtain means where "importance_means (fi l) = Inr means"
        "row = importance_row (dx l) x_ids means"
        unfolding learner_row_def by (cases "importance_means (fi l)") simp_all
      with loop Inr l0 g1 lr s show ?thesis by blast
    qed
  qed
qed

lemma fit_diagnosis_summary:
  "fit_diagnosis sk df X x_ids y_name g = (Inr (s, row), g') \<Longrightarrow> length s = 1"
  using fit_diagnosis_Inr[of sk df X x_ids y_name g s row g'] by (auto simp: summary_def)

lemma fit_diagnosis_row:
  assumes "importances_normalised sk (length x_ids)"
    and "list_all (\<lambda>r. length r = length x_ids) X"
    and "distinct x_ids" and "''Dx'' \<notin> set x_ids"
    and "fit_diagnosis sk df X x_ids y_name g = (Inr (s, row), g')"
  shows "table_row x_ids y_name row \<and> map summary_dx s = [y_name]"
proof -
  from fit_diagnosis_Inr[OF assms(5)] obtain y hc pt folds l means where
    loop: "cv_loop sk X y folds (Learner y_name hc pt x_ids) g = (Inr l, g')"
    and fin: "importance_means (fi l) = Inr means" "s = summary l"
      "row = importance_row (dx l) x_ids means"
    by blast
  from cv_loop_fi[OF assms(1,2) loop] obtain blocks where
    b: "dx l = y_name" "fi l = blocks" "list_all (good_block (length x_ids)) blocks"
    by (auto simp: Learner_def)
  have ne: "blocks \<noteq> []"
    using fin(1) b(2) by (auto simp: importance_means_Nil)
  from importance_means_good_blocks[OF ne b(3)] obtain imp where
    imp: "importance_means blocks = Inr imp" "importance_vector (length x_ids) imp" by blast
  have "s = summary l" "row = importance_row y_name x_ids imp"
    using fin b imp by simp_all
  moreover have "importance_row y_name x_ids imp =
      (''Dx'', Str y_name) # zip x_ids (map Num imp)"
    by (rule importance_row_distinct[OF assms(3,4)]) (use imp(2) in \<open>simp add: importance_vector_def\<close>)
  ultimately show ?thesis
    using imp(2) b(1) by (auto simp: table_row_def summary_def)
qed

lemma fit_loop_rows:
  assumes "importances_normalised sk (length x_ids)"
    and "list_all (\<lambda>r. length r = length x_ids) X"
    and "distinct x_ids" and "''Dx'' \<notin> set x_ids"
    and "fit_loop sk df X x_ids y_ids learners0 summaries0 g = (Inr (learners, summaries), g')"
  shows "\<exists>new_l new_s. learners = learners0 @ new_l \<and> summaries = summaries0 @ new_s \<and>
           list_all2 (table_row x_ids) y_ids new_l \<and>
           list_all2 (\<lambda>y_name s. map summary_dx s = [y_name]) y_ids new_s"
  using assms(5)
proof (induction y_ids arbitrary: learners0 summaries0 g)
  case Nil
  then show ?case by simp
next
  case (Cons y_name y_ids)
  from Cons.prems obtain s row g1 where
    one: "fit_diagnosis sk df X x_ids y_name g = (Inr (s, row), g1)"
    and rest: "fit_loop sk df X x_ids y_ids (learners0 @ [row]) (summaries0 @ [s]) g1 =
                (Inr (learners, summaries), g')"
    by (auto split: sum.splits prod.splits)
  from fit_diagnosis_row[OF assms(1-4) one]
  have r: "table_row x_ids y_name row" "map summary_dx s = [y_name]" by simp_all
  from Cons.IH[OF rest] obtain new_l new_s where
    n: "learners = (learners0 @ [row]) @ new_l" "summaries = (summaries0 @ [s]) @ new_s"
       "list_all2 (table_row x_ids) y_ids new_l"
       "list_all2 (\<lambda>y_name s. map summary_dx s = [y_name]) y_ids new_s"
    by blast
  show ?case
  proof (intro exI[of _ "row # new_l"] exI[of _ "s # new_s"] conjI)
    show "learners = learners0 @ row # new_l" using n(1) by simp
    show "summaries = summaries0 @ s # new_s" using n(2) by simp
    show "list_all2 (table_row x_ids) (y_name # y_ids) (row # new_l)" using r(1) n(3) by simp
    show "list_all2 (\<lambda>y_name s. map summary_dx s = [y_name]) (y_name # y_ids) (s # new_s)"
      using r(2) n(4) by simp
  qed
qed

lemma concat_one_row_tables:
  "list_all2 (\<lambda>y_name s. map summary_dx s = [y_name]) y_ids tables \<Longrightarrow>
     map summary_dx (concat tables) = y_ids"
  by (induction y_ids tables rule: list_all2_induct) simp_all

lemma fit_loop_acc:
  "fit_loop sk df X x_ids ys L S g =
     (case fit_loop sk df X x_ids ys [] [] g of
        (Inl e, g') \<Rightarrow> (Inl e, g')
      | (Inr (L', S'), g') \<Rightarrow> (Inr (L @ L', S @ S'), g'))"
proof (induction ys arbitrary: L S g)
  case Nil
  then show ?case by simp
next
  case (Cons y ys)
  obtain r g1 where d: "fit_diagnosis sk df X x_ids y g = (r, g1)"
    by (cases "fit_diagnosis sk df X x_ids y g")
  show ?case
  proof (cases r)
    case (Inl e)
    with d show ?thesis by simp
  next
    case (Inr p)
    obtain s t where p: "p = (s, t)" by (cases p)
    obtain r2 g2 where rest: "fit_loop sk df X x_ids ys [] [] g1 = (r2, g2)"
      by (cases "fit_loop sk df X x_ids ys [] [] g1")
    have a: "fit_loop sk df X x_ids ys (L @ [t]) (S @ [s]) g1 =
        (case (r2, g2) of (Inl e, g') \<Rightarrow> (Inl e, g')
         | (Inr (L', S'), g') \<Rightarrow> (Inr ((L @ [t]) @ L', (S @ [s]) @ S'), g'))"
      using Cons.IH[of "L @ [t]" "S @ [s]" g1] rest by simp
    have b: "fit_loop sk df X x_ids ys [t] [s] g1 =
        (case (r2, g2) of (Inl e, g') \<Rightarrow> (Inl e, g')
         | (Inr (L', S'), g') \<Rightarrow> (Inr ([t] @ L', [s] @ S'), g'))"
      using Cons.IH[of "[t]" "[s]" g1] rest by simp
    show ?thesis
      using d Inr p a b by (cases r2) (auto split: prod.splits)
  qed
qed

lemma snd_fit_loop_acc:
  "snd (fit_loop sk df X x_ids ys L S g) = snd (fit_loop sk df X x_ids ys [] [] g)"
  by (subst fit_loop_acc) (auto split: prod.splits sum.splits)

lemma fit_loop_extends:
  assumes "fit_loop sk df X x_ids ys L0 S0 g = (Inr (L, S), g')"
  shows "\<exists>new. L = L0 @ new"
  using assms by (subst (asm) fit_loop_acc) (auto split: prod.splits sum.splits)

lemma fit_loop_nth:
  assumes "fit_loop sk df X x_ids ys L0 S0 g = (Inr (L, S), g')" and "i < length ys"
  shows "\<exists>s row g2.
           fit_diagnosis sk df X x_ids (ys ! i)
             (snd (fit_loop sk df X x_ids (take i ys) [] [] g)) = (Inr (s, row), g2) \<and>
           L ! (length L0 + i) = row"
  using assms
proof (induction ys arbitrary: i L0 S0 g)
  case Nil
  then show ?case by simp
next
  case (Cons y ys)
  from Cons.prems(1) obtain s t g1 where
    d: "fit_diagnosis sk df X x_ids y g = (Inr (s, t), g1)"
    and rest: "fit_loop sk df X x_ids ys (L0 @ [t]) (S0 @ [s]) g1 = (Inr (L, S), g')"
    by (auto split: sum.splits prod.splits)
  show ?case
  proof (cases i)
    case 0
    from fit_loop_extends[OF rest] obtain new where "L = (L0 @ [t]) @ new" ..
    then have "L ! (length L0 + 0) = t" by (simp add: nth_append)
    with d 0 show ?thesis by simp
  next
    case (Suc j)
    with Cons.prems(2) have j: "j < length ys" by simp
    from Cons.IH[OF rest j] obtain s' row g2 where
      r: "fit_diagnosis sk df X x_ids (ys ! j)
            (snd (fit_loop sk df X x_ids (take j ys) [] [] g1)) = (Inr (s', row), g2)"
         "L ! (length (L0 @ [t]) + j) = row"
      by blast
    have "snd (fit_loop sk df X x_ids (take (Suc j) (y # ys)) [] [] g) =
          snd (fit_loop sk df X x_ids (take j ys) [t] [s] g1)"
      using d by simp
    also have "\<dots> = snd (fit_loop sk df X x_ids (take j ys) [] [] g1)"
      by (rule snd_fit_loop_acc)
    finally have st: "snd (fit_loop sk df X x_ids (take (Suc j) (y # ys)) [] [] g) =
          snd (fit_loop sk df X x_ids (take j ys) [] [] g1)" .
    show ?thesis
      using r Suc unfolding st[symmetric] by simp
  qed
qed

lemma fit_diagnosis_InrD:
  assumes "fit_diagnosis sk df X x_ids y_name g = (Inr (s, row), g')"
  shows "\<exists>col folds l means.
           getcolumn df y_name = Inr col \<and>
           cv_split sk X (map astype_int col) = Inr folds \<and>
           cv_loop sk X (map astype_int col) folds
             (Learner y_name (unique_counts (map astype_int col) ! 0)
                (unique_counts (map astype_int col) ! 1) x_ids) g = (Inr l, g') \<and>
           importance_means (fi l) = Inr means \<and>
           s = summary l \<and> row = importance_row (dx l) x_ids means"
proof -
  obtain c where c: "getcolumn df y_name = c" by simp
  show ?thesis
  proof (cases c)
    case (Inl e)
    with assms c show ?thesis by (simp add: fit_diagnosis_def)
  next
    case (Inr col)
    let ?y = "map astype_int col" and ?uc = "unique_counts (map astype_int col)"
    have g0: "getitem ?uc 0 = Inr (?uc ! 0)"
      using assms c Inr by (auto simp: fit_diagnosis_def Let_def getitem_def split: if_splits)
    have g1: "getitem ?uc 1 = Inr (?uc ! 1)"
      using assms c Inr g0 by (auto simp: fit_diagnosis_def Let_def getitem_def split: if_splits)
    obtain f where f: "cv_split sk X ?y = f" by simp
    show ?thesis
    proof (cases f)
      case (Inl e)
      with assms c \<open>c = Inr col\<close> g0 g1 f show ?thesis by (simp add: fit_diagnosis_def Let_def)
    next
      case folds: (Inr folds)
      obtain res g1' where loop: "cv_loop sk X ?y folds (Learner y_name (?uc ! 0) (?uc ! 1) x_ids) g
          = (res, g1')"
        by (cases "cv_loop sk X ?y folds (Learner y_name (?uc ! 0) (?uc ! 1) x_ids) g")
      show ?thesis
      proof (cases res)
        case (Inl e)
        with assms c \<open>c = Inr col\<close> g0 g1 f folds loop show ?thesis
          by (simp add: fit_diagnosis_def Let_def)
      next
        case l: (Inr l)
        with assms c \<open>c = Inr col\<close> g0 g1 f folds loop
        have gg: "g1' = g'" and fin: "bindE (learner_row l x_ids)
               (\<lambda>tmp_learner. Inr (summary l, tmp_learner)) = Inr (s, row)"
          by (simp_all add: fit_diagnosis_def Let_def)
        from fin have lr: "learner_row l x_ids = Inr row" and s: "s = summary l"
          by (cases "learner_row l x_ids"; simp)+
        from lr obtain means where "importance_means (fi l) = Inr means"
          "row = importance_row (dx l) x_ids means"
          unfolding learner_row_def by (cases "importance_means (fi l)") simp_all
        with c \<open>c = Inr col\<close> f folds loop l gg s show ?thesis by blast
      qed
    qed
  qed
qed

lemma cv_loop_dx: "cv_loop sk X y folds l g = (Inr l', g') \<Longrightarrow> dx l' = dx l"
proof (induction folds arbitrary: l g)
  case Nil
  then show ?case by simp
next
  case (Cons fold folds)
  obtain idx_train idx_test where fold: "fold = (idx_train, idx_test)" by (cases fold)
  from Cons.prems fold obtain sc y_te g1 where
    "cv_loop sk X y folds (record_fold l sc y_te) g1 = (Inr l', g')"
    by (auto simp: bindE_def split: sum.splits prod.splits)
  from Cons.IH[OF this] show ?case by simp
qed

lemma fit_loop_summaries:
  assumes "fit_loop sk df X x_ids ys L0 S0 g = (Inr (L, S), g')"
  shows "\<exists>ls. map dx ls = ys \<and> S = S0 @ map summary ls"
  using assms
proof (induction ys arbitrary: L0 S0 g)
  case Nil
  then show ?case by simp
next
  case (Cons y ys)
  from Cons.prems obtain s t g1 where
    d: "fit_diagnosis sk df X x_ids y g = (Inr (s, t), g1)"
    and rest: "fit_loop sk df X x_ids ys (L0 @ [t]) (S0 @ [s]) g1 = (Inr (L, S), g')"
    by (auto split: sum.splits prod.splits)
  from fit_diagnosis_InrD[OF d] obtain col folds l where
    cv: "cv_loop sk X (map astype_int col) folds
             (Learner y (unique_counts (map astype_int col) ! 0)
                (unique_counts (map astype_int col) ! 1) x_ids) g = (Inr l, g1)"
    and s: "s = summary l" by blast
  have dx: "dx l = y" using cv_loop_dx[OF cv] by (simp add: Learner_def)
  from Cons.IH[OF rest] obtain ls where
    ls: "map dx ls = ys" "S = (S0 @ [s]) @ map summary ls" by blast
  show ?case
  proof (intro exI[of _ "l # ls"] conjI)
    show "map dx (l # ls) = y # ys" using dx ls(1) by simp
    show "S = S0 @ map summary (l # ls)" using ls(2) s by simp
  qed
qed

lemma fit_loop_lengths:
  assumes "fit_loop sk df X x_ids y_ids learners0 summaries0 g = (Inr (learners, summaries), g')"
  shows "length learners = length learners0 + length y_ids \<and>
         length (concat summaries) = length (concat summaries0) + length y_ids"
  using assms
proof (induction y_ids arbitrary: learners0 summaries0 g)
  case Nil
  then show ?case by simp
next
  case (Cons y_name y_ids)
  from Cons.prems obtain s row g1 where
    one: "fit_diagnosis sk df X x_ids y_name g = (Inr (s, row), g1)"
    and rest: "fit_loop sk df X x_ids y_ids (learners0 @ [row]) (summaries0 @ [s]) g1 =
                (Inr (learners, summaries), g')"
    by (auto split: sum.splits prod.splits)
  from Cons.IH[OF rest] fit_diagnosis_summary[OF one] show ?case by simp
qed

lemma fit_models_row_counts:
  assumes "fst (fit_models sk g df x_ids y_ids) = Inr (learners, summaries)"
  shows "length learners = length y_ids \<and> length summaries = length y_ids"
proof -
  from assms obtain X tables g' where
    loop: "fit_loop sk df X x_ids y_ids [] [] (np_random_seed 42) =
                 (Inr (learners, tables), g')"
    and cat: "pd_concat tables = Inr summaries"
    by (auto simp: fit_models_def bindE_def Let_def split: sum.splits prod.splits)
  have "summaries = concat tables"
    using cat by (simp add: pd_concat_def split: if_splits)
  then show ?thesis using fit_loop_lengths[OF loop] by simp
qed

text \<open>
  Claim C8, as the code has it. When a call over duplicate-free feature identifiers, none
  of them the label \<open>Dx\<close>, completes, the importance table has one row per diagnosis, in
  the order of the diagnoses and keyed by the diagnosis, with one column per requested
  feature in the order of the features, and every importance row has no negative entry
  and sums to 1, given that every sub-model importance vector of the library has one
  entry per feature, no negative entry and sum 1. The summary table is the
  concatenation, in the order of the diagnoses, of the tables that \<^verbatim>\<open>summary()\<close> returns
  for the learners of the diagnoses; with the one-row summary of the specification it
  has one row per diagnosis. (A feature identifier that is repeated, or that is \<open>Dx\<close>,
  replaces an entry of the row dictionary: see the example at the end.)
\<close>

theorem fit_models_tables:
  assumes "fst (fit_models sk g df x_ids y_ids) = Inr (learners, summaries)"
    and "distinct x_ids" and "''Dx'' \<notin> set x_ids"
    and "importances_normalised sk (length x_ids)"
  shows "length learners = length y_ids \<and>
         list_all2 (\<lambda>y_name row. \<exists>imp. row = (''Dx'', Str y_name) # zip x_ids (map Num imp) \<and>
                      length imp = length x_ids \<and> list_all (\<lambda>x. 0 \<le> x) imp \<and>
                      sum_list imp = 1) y_ids learners \<and>
         (\<exists>ls. map dx ls = y_ids \<and> summaries = concat (map summary ls)) \<and>
         length summaries = length y_ids \<and> map summary_dx summaries = y_ids"
proof -
  from assms(1) obtain X tables g' where
    X: "getcolumns df x_ids = Inr X"
    and loop: "fit_loop sk df X x_ids y_ids [] [] (np_random_seed 42) =
                 (Inr (learners, tables), g')"
    and cat: "pd_concat tables = Inr summaries"
    by (auto simp: fit_models_def bindE_def Let_def split: sum.splits prod.splits)
  from fit_loop_rows[OF assms(4) getcolumns_rows[OF X] assms(2,3) loop]
  have rows: "list_all2 (table_row x_ids) y_ids learners"
    and sums: "list_all2 (\<lambda>y_name s. map summary_dx s = [y_name]) y_ids tables"
    by simp_all
  have s: "summaries = concat tables"
    using cat by (simp add: pd_concat_def split: if_splits)
  from fit_loop_summaries[OF loop] obtain ls where
    ls: "map dx ls = y_ids" "tables = map summary ls" by auto
  have struct: "\<exists>ls. map dx ls = y_ids \<and> summaries = concat (map summary ls)"
    using ls s by blast
  have dxs: "map summary_dx summaries = y_ids"
    unfolding s by (rule concat_one_row_tables[OF sums])
  then have "length (map summary_dx summaries) = length y_ids" by simp
  then have lsum: "length summaries = length y_ids" by simp
  have ll: "length learners = length y_ids"
    using rows by (simp add: list_all2_lengthD)
  have "list_all2 (\<lambda>y_name row. \<exists>imp. row = (''Dx'', Str y_name) # zip x_ids (map Num imp) \<and>
                      length imp = length x_ids \<and> list_all (\<lambda>x. 0 \<le> x) imp \<and>
                      sum_list imp = 1) y_ids learners"
    using rows by (rule list_all2_mono) (auto simp: table_row_def importance_vector_def)
  with ll lsum dxs struct show ?thesis by simp
qed

lemma sum_list_map_concat:
  "sum_list (map h (concat xss)) = sum_list (map (\<lambda>xs. sum_list (map h xs)) xss)"
  by (induction xss) simp_all

lemma length_concat_uniform:
  "list_all (\<lambda>b. length b = k) xss \<Longrightarrow> length (concat xss) = length xss * k"
  by (induction xss) simp_all

lemma uniform_blocks_facts:
  assumes "uniform_blocks k f nested" and "0 < k"
  shows "map atleast_2d nested = nested"
    and "list_all (\<lambda>v. length v = f) (concat nested)"
    and "length (concat nested) = length nested * k"
    and "\<And>b. b \<in> set nested \<Longrightarrow> length (hd b) = f \<and> length b = k"
proof -
  have blk: "\<And>b. b \<in> set nested \<Longrightarrow> length b = k \<and> (\<forall>v\<in>set b. length v = f)"
    using assms(1) by (auto simp: uniform_blocks_def list_all_iff)
  show "map atleast_2d nested = nested"
    using blk assms(2) by (intro map_idI) (auto simp: atleast_2d_def)
  show "list_all (\<lambda>v. length v = f) (concat nested)"
    using blk by (auto simp: list_all_iff)
  show "length (concat nested) = length nested * k"
    by (rule length_concat_uniform) (use blk in \<open>auto simp: list_all_iff\<close>)
  fix b assume b: "b \<in> set nested"
  then have "b \<noteq> []" using blk assms(2) by auto
  then have "hd b \<in> set b" by simp
  then show "length (hd b) = f \<and> length b = k" using blk[OF b] by simp
qed

lemma vstack_uniform:
  assumes "nested \<noteq> []" and "0 < k" and "uniform_blocks k f nested"
  shows "vstack nested = Inr (concat nested)"
proof -
  note u = uniform_blocks_facts[OF assms(3,2)]
  have "concat nested \<noteq> []" using u(3) assms(1,2) by (metis length_0_conv length_greater_0_conv mult_is_0 less_numeral_extra(3))
  then have "hd (concat nested) \<in> set (concat nested)" by (rule hd_in_set)
  then have "length (hd (concat nested)) = f" using u(2) unfolding list_all_iff by blast
  then have "list_all (\<lambda>r. length r = length (hd (concat nested))) (concat nested)"
    using u(2) by simp
  then show ?thesis using assms(1) by (simp add: vstack_def u(1) Let_def)
qed

lemma flat_mean_is_two_stage_mean:
  assumes "nested \<noteq> []" and "0 < k" and "uniform_blocks k f nested"
  shows "mean_axis0 (concat nested) = two_stage_mean nested"
proof -
  note u = uniform_blocks_facts[OF assms(3,2)]
  let ?n = "length nested"
  have cne: "concat nested \<noteq> []"
    using u(3) assms(1,2) by (metis length_0_conv length_greater_0_conv mult_is_0 less_numeral_extra(3))
  then have "hd (concat nested) \<in> set (concat nested)" by (rule hd_in_set)
  then have hf: "length (hd (concat nested)) = f" using u(2) unfolding list_all_iff by blast
  have "hd nested \<in> set nested" using assms(1) by simp
  then have hb: "length (hd (hd nested)) = f" using u(4) by simp
  have hm: "length (hd (map mean_axis0 nested)) = f"
    using assms(1) hb by (simp add: hd_map length_mean_axis0)
  have col: "sum_list (map (\<lambda>r. r ! j) (concat nested)) / real (length (concat nested)) =
             sum_list (map (\<lambda>r. r ! j) (map mean_axis0 nested)) / real ?n" if j: "j < f" for j
  proof -
    have "map (\<lambda>r. r ! j) (map mean_axis0 nested) =
          map (\<lambda>b. sum_list (map (\<lambda>r. r ! j) b) / real k) nested"
      unfolding map_map comp_def
      by (rule map_cong[OF refl]) (use u(4) j in \<open>simp add: nth_mean_axis0\<close>)
    then have "sum_list (map (\<lambda>r. r ! j) (map mean_axis0 nested)) =
          sum_list (map (\<lambda>b. sum_list (map (\<lambda>r. r ! j) b) / real k) nested)"
      by (rule arg_cong)
    also have "\<dots> = sum_list (map (\<lambda>b. sum_list (map (\<lambda>r. r ! j) b)) nested) / real k"
      by (rule sum_list_div_const)
    also have "\<dots> = sum_list (map (\<lambda>r. r ! j) (concat nested)) / real k"
      by (simp add: sum_list_map_concat)
    finally have e: "sum_list (map (\<lambda>r. r ! j) (map mean_axis0 nested)) =
          sum_list (map (\<lambda>r. r ! j) (concat nested)) / real k" .
    show ?thesis
      unfolding e u(3) using assms(2) by (simp add: mult.commute)
  qed
  have lhs: "mean_axis0 (concat nested) =
      map (\<lambda>j. sum_list (map (\<lambda>r. r ! j) (concat nested)) / real (length (concat nested)))
          [0..<f]"
    unfolding mean_axis0_def[of "concat nested"] hf ..
  have rhs: "two_stage_mean nested =
      map (\<lambda>j. sum_list (map (\<lambda>r. r ! j) (map mean_axis0 nested)) / real ?n) [0..<f]"
    unfolding two_stage_mean_def mean_axis0_def[of "map mean_axis0 nested"] hm by simp
  show ?thesis
    unfolding lhs rhs by (rule map_cong[OF refl]) (use col in simp)
qed

lemma importance_means_two_stage:
  assumes "nested \<noteq> []" and "0 < k" and "uniform_blocks k f nested"
  shows "importance_means nested = Inr (two_stage_mean nested)"
  using vstack_uniform[OF assms] flat_mean_is_two_stage_mean[OF assms]
  by (simp add: importance_means_def)


lemma map_of_fold_update:
  "map_of (fold (\<lambda>(k, v) d. AList.update k (Num v) d) kvs al) =
     map_of al ++ map_of (rev (map (\<lambda>(k, v). (k, Num v)) kvs))"
proof (induction kvs arbitrary: al)
  case Nil
  then show ?case by simp
next
  case (Cons kv kvs)
  obtain k v where kv: "kv = (k, v)" by (cases kv)
  let ?rest = "map_of (rev (map (\<lambda>(k, v). (k, Num v)) kvs))"
  have "map_of (fold (\<lambda>(k, v) d. AList.update k (Num v) d) (kv # kvs) al) =
        map_of (fold (\<lambda>(k, v) d. AList.update k (Num v) d) kvs (AList.update k (Num v) al))"
    using kv by simp
  also have "\<dots> = map_of (AList.update k (Num v) al) ++ ?rest"
    by (rule Cons.IH)
  also have "map_of (AList.update k (Num v) al) = map_of al ++ [k \<mapsto> Num v]"
    unfolding update_conv' by simp
  also have "(map_of al ++ [k \<mapsto> Num v]) ++ ?rest = map_of al ++ ([k \<mapsto> Num v] ++ ?rest)"
    by (rule map_add_assoc[symmetric])
  also have "[k \<mapsto> Num v] ++ ?rest = map_of (rev (map (\<lambda>(k, v). (k, Num v)) (kv # kvs)))"
    using kv by simp
  finally show ?case .
qed

lemma importance_row_map_of:
  "map_of (importance_row name x_ids means) =
     [''Dx'' \<mapsto> Str name] ++ map_of (rev (zip x_ids (map Num means)))"
proof -
  have "map (\<lambda>(k, v). (k, Num v)) (zip x_ids means) = zip x_ids (map Num means)"
    by (simp add: zip_map2)
  then show ?thesis
    unfolding importance_row_def map_of_fold_update by simp
qed

lemma importance_row_zip:
  assumes "distinct x_ids" and "''Dx'' \<notin> set x_ids"
  shows "importance_row name x_ids means = (''Dx'', Str name) # zip x_ids (map Num means)"
proof -
  have "map fst (zip x_ids means) = take (min (length x_ids) (length means)) x_ids"
    by (rule map_fst_zip_take)
  then have d: "distinct (map fst (zip x_ids means))" using assms(1) by simp
  have s: "fst ` set (zip x_ids means) \<subseteq> set x_ids"
    by (auto dest: set_zip_leftD)
  have "fold (\<lambda>(k, v) d. AList.update k (Num v) d) (zip x_ids means) [(''Dx'', Str name)] =
        [(''Dx'', Str name)] @ map (\<lambda>(k, v). (k, Num v)) (zip x_ids means)"
    by (rule fold_update_fresh[OF d]) (use assms(2) s in auto)
  moreover have "map (\<lambda>(k, v). (k, Num v)) (zip x_ids means) = zip x_ids (map Num means)"
    by (simp add: zip_map2)
  ultimately show ?thesis by (simp add: importance_row_def)
qed

lemma importance_means_same_count:
  assumes "importance_means nested = Inr means" and "0 < k"
    and "list_all (\<lambda>block. length block = k) nested"
  shows "importance_means nested = Inr (two_stage_mean nested)"
proof -
  have ne: "nested \<noteq> []" using assms(1) by (auto simp: importance_means_Nil)
  have id: "map atleast_2d nested = nested"
    using assms(2,3) by (intro map_idI) (auto simp: list_all_iff atleast_2d_def)
  have "vstack nested \<noteq> Inl ValueError"
    using assms(1) by (auto simp: importance_means_def)
  then have all: "list_all (\<lambda>r. length r = length (hd (concat nested))) (concat nested)"
    using ne by (auto simp: vstack_def Let_def id split: if_splits)
  have "uniform_blocks k (length (hd (concat nested))) nested"
    using assms(3) all by (auto simp: uniform_blocks_def list_all_iff)
  from importance_means_two_stage[OF ne assms(2) this] show ?thesis .
qed

lemma cv_loop_fold_blocks:
  assumes "cv_loop sk X y folds l g = (Inr l', g')"
  shows "\<exists>blocks. fi l' = fi l @ blocks \<and> list_all2 (fold_block sk X y) folds blocks"
  using assms
proof (induction folds arbitrary: l g)
  case Nil
  then show ?case by simp
next
  case (Cons fold folds)
  obtain idx_train idx_test where fold: "fold = (idx_train, idx_test)" by (cases fold)
  from Cons.prems fold obtain X_tr y_tr X_te y_te sc g1 where
    parts: "take_indices X idx_train = Inr X_tr" "take_indices y idx_train = Inr y_tr"
      "take_indices X idx_test = Inr X_te" "take_indices y idx_test = Inr y_te"
    and call: "fit_and_score sk g X_tr y_tr X_te y_te = (Inr sc, g1)"
    and rest: "cv_loop sk X y folds (record_fold l sc y_te) g1 = (Inr l', g')"
    by (auto simp: bindE_def split: sum.splits prod.splits)
  have fb: "fold_block sk X y fold (feature_importances sc)"
    unfolding fold_block_def fold using parts call by auto
  from Cons.IH[OF rest] obtain blocks where
    b: "fi l' = fi l @ [feature_importances sc] @ blocks"
       "list_all2 (fold_block sk X y) folds blocks"
    by auto
  show ?case
  proof (intro conjI exI[of _ "feature_importances sc # blocks"])
    show "fi l' = fi l @ feature_importances sc # blocks" using b(1) by simp
    show "list_all2 (fold_block sk X y) (fold # folds) (feature_importances sc # blocks)"
      using fb b(2) by simp
  qed
qed

text \<open>
  Claim C4. When a call of \<^verbatim>\<open>fit_models\<close> completes, the importance table has one row
  per diagnosis, and the row of the \<open>i\<close>-th diagnosis comes from the learner that the loop
  over the outer folds builds for it (on the selected feature matrix, the target vector
  of the diagnosis, the folds of the splitter, and the generator as the diagnoses before
  it left it); the learner holds one block of sub-model vectors per outer fold, the
  vectors that the fit on the fold's training partition returned. Whenever
  every outer fold contributed the same number \<open>k > 0\<close> of sub-model vectors, the mean
  over all the stacked vectors that line 182 computes is the two-stage mean (within each
  outer fold, then across the outer folds), and the row is the dictionary built from it:
  the value stored under a feature is the two-stage mean at the last position of that
  feature among the requested features, and for duplicate-free features that do not
  include the label \<open>Dx\<close> the row is the diagnosis followed by the features paired
  with the entries of the two-stage mean, in order.
\<close>

theorem importance_table_two_stage:
  assumes "fst (fit_models sk g df x_ids y_ids) = Inr (learners, summaries)"
  shows "length learners = length y_ids \<and>
    (\<forall>i<length y_ids. \<exists>X col folds l g'.
        getcolumns df x_ids = Inr X \<and> getcolumn df (y_ids ! i) = Inr col \<and>
        cv_split sk X (map astype_int col) = Inr folds \<and>
        cv_loop sk X (map astype_int col) folds
          (Learner (y_ids ! i) (unique_counts (map astype_int col) ! 0)
             (unique_counts (map astype_int col) ! 1) x_ids)
          (snd (fit_loop sk df X x_ids (take i y_ids) [] [] (np_random_seed 42))) =
          (Inr l, g') \<and>
        length (fi l) = length folds \<and>
        list_all2 (fold_block sk X (map astype_int col)) folds (fi l) \<and>
        (\<forall>k. 0 < k \<and> list_all (\<lambda>block. length block = k) (fi l) \<longrightarrow>
           importance_means (fi l) = Inr (two_stage_mean (fi l)) \<and>
           learners ! i = importance_row (y_ids ! i) x_ids (two_stage_mean (fi l)) \<and>
           map_of (learners ! i) =
             [''Dx'' \<mapsto> Str (y_ids ! i)] ++
             map_of (rev (zip x_ids (map Num (two_stage_mean (fi l))))) \<and>
           (distinct x_ids \<and> ''Dx'' \<notin> set x_ids \<longrightarrow>
              learners ! i =
                (''Dx'', Str (y_ids ! i)) # zip x_ids (map Num (two_stage_mean (fi l))))))"
proof (intro conjI allI impI)
  from assms obtain X tables g1 where
    X: "getcolumns df x_ids = Inr X"
    and loop: "fit_loop sk df X x_ids y_ids [] [] (np_random_seed 42) =
                 (Inr (learners, tables), g1)"
    by (auto simp: fit_models_def bindE_def Let_def split: sum.splits prod.splits)
  show "length learners = length y_ids"
    using fit_models_row_counts[OF assms] by simp
  fix i assume i: "i < length y_ids"
  let ?g = "snd (fit_loop sk df X x_ids (take i y_ids) [] [] (np_random_seed 42))"
  from fit_loop_nth[OF loop i] obtain s row g2 where
    d: "fit_diagnosis sk df X x_ids (y_ids ! i) ?g = (Inr (s, row), g2)"
    and row: "learners ! i = row" by auto
  from fit_diagnosis_InrD[OF d] obtain col folds l means where
    c: "getcolumn df (y_ids ! i) = Inr col"
    and f: "cv_split sk X (map astype_int col) = Inr folds"
    and cv: "cv_loop sk X (map astype_int col) folds
             (Learner (y_ids ! i) (unique_counts (map astype_int col) ! 0)
                (unique_counts (map astype_int col) ! 1) x_ids) ?g = (Inr l, g2)"
    and m: "importance_means (fi l) = Inr means"
    and r: "row = importance_row (dx l) x_ids means"
    by blast
  have "dx l = dx (Learner (y_ids ! i) (unique_counts (map astype_int col) ! 0)
                (unique_counts (map astype_int col) ! 1) x_ids) \<and>
      (\<exists>blocks. fi l = fi (Learner (y_ids ! i) (unique_counts (map astype_int col) ! 0)
                (unique_counts (map astype_int col) ! 1) x_ids) @ blocks \<and>
         length blocks = length folds \<and> list_all (\<lambda>b. True) blocks)"
    by (rule cv_loop_blocks[OF _ getcolumns_rows[OF X] cv]) simp
  then have dx: "dx l = y_ids ! i" and len: "length (fi l) = length folds"
    by (auto simp: Learner_def)
  have blocks: "list_all2 (fold_block sk X (map astype_int col)) folds (fi l)"
    using cv_loop_fold_blocks[OF cv] by (simp add: Learner_def)
  have two: "importance_means (fi l) = Inr (two_stage_mean (fi l)) \<and>
           learners ! i = importance_row (y_ids ! i) x_ids (two_stage_mean (fi l)) \<and>
           map_of (learners ! i) =
             [''Dx'' \<mapsto> Str (y_ids ! i)] ++
             map_of (rev (zip x_ids (map Num (two_stage_mean (fi l))))) \<and>
           (distinct x_ids \<and> ''Dx'' \<notin> set x_ids \<longrightarrow>
              learners ! i =
                (''Dx'', Str (y_ids ! i)) # zip x_ids (map Num (two_stage_mean (fi l))))"
    if k: "0 < k \<and> list_all (\<lambda>block. length block = k) (fi l)" for k
  proof -
    from k have e: "importance_means (fi l) = Inr (two_stage_mean (fi l))"
      using importance_means_same_count[OF m] by blast
    with m have "means = two_stage_mean (fi l)" by simp
    with row r dx have eq: "learners ! i = importance_row (y_ids ! i) x_ids (two_stage_mean (fi l))"
      by simp
    show ?thesis
      using e eq importance_row_map_of[of "y_ids ! i" x_ids "two_stage_mean (fi l)"]
        importance_row_zip[of x_ids "y_ids ! i" "two_stage_mean (fi l)"]
      by simp
  qed
  show "\<exists>X col folds l g'.
        getcolumns df x_ids = Inr X \<and> getcolumn df (y_ids ! i) = Inr col \<and>
        cv_split sk X (map astype_int col) = Inr folds \<and>
        cv_loop sk X (map astype_int col) folds
          (Learner (y_ids ! i) (unique_counts (map astype_int col) ! 0)
             (unique_counts (map astype_int col) ! 1) x_ids)
          (snd (fit_loop sk df X x_ids (take i y_ids) [] [] (np_random_seed 42))) =
          (Inr l, g') \<and>
        length (fi l) = length folds \<and>
        list_all2 (fold_block sk X (map astype_int col)) folds (fi l) \<and>
        (\<forall>k. 0 < k \<and> list_all (\<lambda>block. length block = k) (fi l) \<longrightarrow>
           importance_means (fi l) = Inr (two_stage_mean (fi l)) \<and>
           learners ! i = importance_row (y_ids ! i) x_ids (two_stage_mean (fi l)) \<and>
           map_of (learners ! i) =
             [''Dx'' \<mapsto> Str (y_ids ! i)] ++
             map_of (rev (zip x_ids (map Num (two_stage_mean (fi l))))) \<and>
           (distinct x_ids \<and> ''Dx'' \<notin> set x_ids \<longrightarrow>
              learners ! i =
                (''Dx'', Str (y_ids ! i)) # zip x_ids (map Num (two_stage_mean (fi l)))))"
    using X c f cv len blocks two by blast
qed

text \<open>
  Claim C7, as the code has it. A call does not leave the process-wide generator as it
  found it: line 104 replaces its state by the one seeded with 42. Whatever the state
  on entry, the result and the state left behind are those of a call entered in the
  seeded state; with no diagnosis the state left is the seeded state itself.
\<close>

theorem fit_models_overwrites_generator:
  "fit_models sk g df x_ids y_ids = fit_models sk (np_random_seed 42) df x_ids y_ids \<and>
   snd (fit_models sk g df x_ids []) = np_random_seed 42"
  by (simp add: fit_models_def Let_def split: sum.splits)

section \<open>Properties of the degradation sweep\<close>

lemma slice_to_Suc: "slice_to xs (int i + 1) = take (Suc i) xs"
  by (simp add: slice_to_def nat_add_distrib)

lemma submitted_subsets_prefixes:
  "submitted_subsets sorted_x_ids =
     map (\<lambda>k. take k sorted_x_ids) (rev [1..<Suc (length sorted_x_ids)])"
proof -
  have "map (\<lambda>k. take k sorted_x_ids) (rev [1..<Suc (length sorted_x_ids)]) =
        map (\<lambda>k. take k sorted_x_ids) (rev (map Suc [0..<length sorted_x_ids]))"
    by (simp only: map_Suc_upt One_nat_def)
  also have "\<dots> = map (\<lambda>i. take (Suc i) sorted_x_ids) (rev [0..<length sorted_x_ids])"
    by (simp add: rev_map comp_def)
  finally show ?thesis by (simp add: submitted_subsets_def slice_to_Suc)
qed

lemma length_submitted_subsets: "length (submitted_subsets sorted_x_ids) = length sorted_x_ids"
  by (simp add: submitted_subsets_def)

lemma length_submitted_futures:
  "length (submitted_futures sk worker_state df sorted_x_ids y_ids) = length sorted_x_ids"
  by (simp add: submitted_futures_def length_submitted_subsets)

lemma submitted_futures_worker_state:
  "submitted_futures sk worker_state df sorted_x_ids y_ids =
   submitted_futures sk worker_state' df sorted_x_ids y_ids"
proof -
  have "(\<lambda>(i, xi). fst (fit_models sk (worker_state i) df xi y_ids)) =
        (\<lambda>(i, xi). fst (fit_models sk (worker_state' i) df xi y_ids))"
    by (intro ext) (simp add: fit_models_def split: prod.splits)
  then show ?thesis unfolding submitted_futures_def by simp
qed

lemma nth_submitted_futures:
  assumes "i < length sorted_x_ids"
  shows "submitted_futures sk worker_state df sorted_x_ids y_ids ! i =
         fst (fit_models sk (worker_state i) df (submitted_subsets sorted_x_ids ! i) y_ids)"
  using assms by (simp add: submitted_futures_def length_submitted_subsets nth_enumerate_eq)

lemma strict_prefix_take:
  "k < length xs \<Longrightarrow> strict_prefix (take k xs) (take (Suc k) xs)"
proof -
  assume k: "k < length xs"
  have "take k xs = take k (take (Suc k) xs)" by (simp add: min_def)
  then have p: "prefix (take k xs) (take (Suc k) xs)" by (metis take_is_prefix)
  have "length (take k xs) \<noteq> length (take (Suc k) xs)" using k by simp
  then have "take k xs \<noteq> take (Suc k) xs" by metis
  with p show ?thesis by (simp add: strict_prefix_def)
qed

lemma collect_results_map_Inr: "collect_results (map Inr vs) = Inr vs"
  by (induction vs) simp_all

lemma collect_results_InrD: "collect_results rs = Inr vs \<Longrightarrow> rs = map Inr vs"
proof (induction rs arbitrary: vs)
  case Nil
  then show ?case by simp
next
  case (Cons r rs)
  show ?case
  proof (cases r)
    case (Inl e)
    with Cons.prems show ?thesis by simp
  next
    case (Inr v)
    show ?thesis
    proof (cases "collect_results rs")
      case (Inl e)
      with Cons.prems \<open>r = Inr v\<close> show ?thesis by simp
    next
      case inner: (Inr ws)
      with Cons.prems \<open>r = Inr v\<close> have vs: "vs = v # ws" by simp
      from Cons.IH[OF inner] have "rs = map Inr ws" .
      with vs \<open>r = Inr v\<close> show ?thesis by simp
    qed
  qed
qed

lemma sweep_results_values:
  assumes "as_completed (submitted_futures sk worker_state df sorted_x_ids y_ids) completion"
    and "sweep_results sk threads worker_state completion df sorted_x_ids y_ids =
           Inr degraded_tuple"
  shows "0 < threads \<and>
         (\<exists>vs. submitted_futures sk worker_state df sorted_x_ids y_ids = map Inr vs \<and>
            degraded_tuple = map (\<lambda>i. vs ! i) completion)"
proof -
  let ?F = "submitted_futures sk worker_state df sorted_x_ids y_ids"
  have t: "0 < threads" using assms(2) by (auto simp: sweep_results_def split: if_splits)
  then have c: "map (\<lambda>i. ?F ! i) completion = map Inr degraded_tuple"
    using assms(2) collect_results_InrD by (simp add: sweep_results_def)
  have sc: "set completion = {0..<length ?F}"
    using assms(1) unfolding as_completed_def by (metis mset_eq_setD set_upt)
  have all: "\<exists>v. ?F ! i = Inr v" if "i < length ?F" for i
  proof -
    from that sc have "i \<in> set completion" by simp
    then obtain p where p: "p < length completion" "completion ! p = i"
      by (auto simp: in_set_conv_nth)
    have lp: "p < length degraded_tuple"
      using p(1) arg_cong[OF c, of length] by simp
    have "map (\<lambda>i. ?F ! i) completion ! p = map Inr degraded_tuple ! p"
      by (simp only: c)
    then have "?F ! i = Inr (degraded_tuple ! p)" using p lp by simp
    then show ?thesis ..
  qed
  have F: "?F = map Inr (map projr ?F)"
  proof (rule nth_equalityI)
    show "length ?F = length (map Inr (map projr ?F))" by simp
    fix i assume i: "i < length ?F"
    then obtain v where "?F ! i = Inr v" using all[of i] by blast
    then show "?F ! i = map Inr (map projr ?F) ! i" using i by simp
  qed
  have e1: "map (\<lambda>i. ?F ! i) completion = map (\<lambda>i. Inr (map projr ?F ! i)) completion"
  proof (rule map_cong[OF refl])
    fix i assume "i \<in> set completion"
    then have i: "i < length ?F" using sc by simp
    then obtain v where "?F ! i = Inr v" using all[of i] by blast
    then show "?F ! i = Inr (map projr ?F ! i)" using i by simp
  qed
  have e2: "map (\<lambda>i. ?F ! i) completion = map Inr (map (\<lambda>i. map projr ?F ! i) completion)"
    unfolding e1 by (simp add: comp_def)
  have "degraded_tuple = map (\<lambda>i. map projr ?F ! i) completion"
    using c[unfolded e2] inj_map_eq_map[OF inj_Inr] by metis
  with t F show ?thesis by blast
qed

lemma mset_concat_map:
  "mset (concat (map h ts)) = sum_mset (image_mset (\<lambda>t. mset (h t)) (mset ts))"
  by (induction ts) simp_all

lemma nth_submitted_subsets:
  "i < length sorted_x_ids \<Longrightarrow>
     submitted_subsets sorted_x_ids ! i = take (length sorted_x_ids - i) sorted_x_ids"
  by (simp add: submitted_subsets_def slice_to_Suc rev_nth Suc_diff_Suc)

lemma prefix_lengths:
  "map (\<lambda>i. length (take (length xs - i) xs)) [0..<length xs] = rev [1..<Suc (length xs)]"
proof (rule nth_equalityI)
  show "length (map (\<lambda>i. length (take (length xs - i) xs)) [0..<length xs]) =
        length (rev [1..<Suc (length xs)])" by (simp del: upt_Suc)
  fix i assume "i < length (map (\<lambda>i. length (take (length xs - i) xs)) [0..<length xs])"
  then have i: "i < length xs" by simp
  then have "rev [1..<Suc (length xs)] ! i = [1..<Suc (length xs)] ! (length xs - Suc i)"
    by (simp add: rev_nth del: upt_Suc)
  also have "\<dots> = length xs - i" using i by (simp del: upt_Suc)
  finally have "rev [1..<Suc (length xs)] ! i = length xs - i" .
  with i show "map (\<lambda>i. length (take (length xs - i) xs)) [0..<length xs] ! i =
        rev [1..<Suc (length xs)] ! i" by simp
qed

lemma sweep_results_calls:
  assumes "0 < threads" and "mset completion = mset [0..<length sorted_x_ids]"
  shows "sweep_results sk threads worker_state completion df sorted_x_ids y_ids =
     collect_results
       (map (\<lambda>i. fst (fit_models sk (worker_state i) df
                        (take (length sorted_x_ids - i) sorted_x_ids) y_ids)) completion)"
proof -
  have sc: "set completion = {0..<length sorted_x_ids}"
    using assms(2) by (metis mset_eq_setD set_upt)
  have e: "map (\<lambda>i. submitted_futures sk worker_state df sorted_x_ids y_ids ! i) completion =
        map (\<lambda>i. fst (fit_models sk (worker_state i) df
                        (take (length sorted_x_ids - i) sorted_x_ids) y_ids)) completion"
    by (rule map_cong[OF refl])
      (use sc in \<open>simp add: nth_submitted_futures nth_submitted_subsets\<close>)
  have "sweep_results sk threads worker_state completion df sorted_x_ids y_ids =
      collect_results
        (map (\<lambda>i. submitted_futures sk worker_state df sorted_x_ids y_ids ! i) completion)"
    using assms(1) by (simp add: sweep_results_def)
  then show ?thesis unfolding e .
qed

lemma length_concat_rows:
  "list_all (\<lambda>t. length (h t) = d) ts \<Longrightarrow> length (concat (map h ts)) = length ts * d"
  by (induction ts) simp_all

text \<open>
  Claim C6. With a pool of at least one worker, \<^verbatim>\<open>degrading_fit\<close> on a ranked list of
  \<open>n\<close> features is the collection, in the order in which the futures are yielded, of the
  results of \<open>n\<close> calls of \<^verbatim>\<open>fit_models\<close>, the \<open>i\<close>-th submitted call on the first
  \<open>n - i\<close> features and the same diagnoses: the prefix lengths are \<open>n\<close>, \<open>n - 1\<close>, ...,
  1, one call each, and a prefix of length \<open>k\<close> is a strict prefix of the prefix of
  length \<open>k + 1\<close>. Without a worker nothing is submitted and ValueError is raised. When
  the sweep returns its tables, the list was not empty, the tables are the
  concatenations of the tables of these \<open>n\<close> calls, every call contributes one row per
  diagnosis to either table, and so either table has \<open>n\<close> times the number of diagnoses
  rows (3 over 3 features and 1 diagnosis).
\<close>

theorem degrading_fit_prefix_sweep:
  assumes "mset completion = mset [0..<length sorted_x_ids]"
  shows
   "(threads \<le> 0 \<longrightarrow>
       degrading_fit sk threads worker_state completion df sorted_x_ids y_ids =
         Inl ValueError) \<and>
    (0 < threads \<longrightarrow>
       degrading_fit sk threads worker_state completion df sorted_x_ids y_ids =
         bindE (collect_results
                  (map (\<lambda>i. fst (fit_models sk (worker_state i) df
                                   (take (length sorted_x_ids - i) sorted_x_ids) y_ids))
                       completion))
           (\<lambda>degraded_tuple.
              bindE (pd_concat (map snd degraded_tuple)) (\<lambda>summaries.
              bindE (pd_concat (map fst degraded_tuple)) (\<lambda>learners.
                Inr (learners, summaries))))) \<and>
    map (\<lambda>i. length (take (length sorted_x_ids - i) sorted_x_ids)) [0..<length sorted_x_ids] =
      rev [1..<Suc (length sorted_x_ids)] \<and>
    (\<forall>k. 0 < k \<and> k < length sorted_x_ids \<longrightarrow>
       strict_prefix (take k sorted_x_ids) (take (Suc k) sorted_x_ids)) \<and>
    (\<forall>learners summaries.
       degrading_fit sk threads worker_state completion df sorted_x_ids y_ids =
         Inr (learners, summaries) \<longrightarrow>
       0 < threads \<and> sorted_x_ids \<noteq> [] \<and>
       length summaries = length sorted_x_ids * length y_ids \<and>
       length learners = length sorted_x_ids * length y_ids \<and>
       (\<exists>degraded_tuple.
          length degraded_tuple = length sorted_x_ids \<and>
          learners = concat (map fst degraded_tuple) \<and>
          summaries = concat (map snd degraded_tuple) \<and>
          (\<forall>p < length sorted_x_ids.
             fst (fit_models sk (worker_state (completion ! p)) df
                    (take (length sorted_x_ids - completion ! p) sorted_x_ids) y_ids) =
               Inr (degraded_tuple ! p) \<and>
             length (fst (degraded_tuple ! p)) = length y_ids \<and>
             length (snd (degraded_tuple ! p)) = length y_ids)))"
proof (intro conjI allI impI)
  let ?n = "length sorted_x_ids"
  let ?call = "\<lambda>i. fst (fit_models sk (worker_state i) df (take (?n - i) sorted_x_ids) y_ids)"
  show "degrading_fit sk threads worker_state completion df sorted_x_ids y_ids = Inl ValueError"
    if "threads \<le> 0"
    using that by (simp add: degrading_fit_def sweep_results_def)
  show "degrading_fit sk threads worker_state completion df sorted_x_ids y_ids =
         bindE (collect_results (map ?call completion))
           (\<lambda>degraded_tuple.
              bindE (pd_concat (map snd degraded_tuple)) (\<lambda>summaries.
              bindE (pd_concat (map fst degraded_tuple)) (\<lambda>learners.
                Inr (learners, summaries))))"
    if "0 < threads"
    unfolding degrading_fit_def sweep_results_calls[OF that assms] by (simp add: Let_def)
  show "map (\<lambda>i. length (take (?n - i) sorted_x_ids)) [0..<?n] = rev [1..<Suc ?n]"
    by (rule prefix_lengths)
  show "strict_prefix (take k sorted_x_ids) (take (Suc k) sorted_x_ids)"
    if "0 < k \<and> k < ?n" for k
    using that by (simp add: strict_prefix_take)
next
  let ?n = "length sorted_x_ids"
  let ?call = "\<lambda>i. fst (fit_models sk (worker_state i) df (take (?n - i) sorted_x_ids) y_ids)"
  fix learners summaries
  assume r: "degrading_fit sk threads worker_state completion df sorted_x_ids y_ids =
         Inr (learners, summaries)"
  show thr: "0 < threads"
    using r by (auto simp: degrading_fit_def sweep_results_def split: if_splits)
  from r obtain ts where
    sw: "sweep_results sk threads worker_state completion df sorted_x_ids y_ids = Inr ts"
    and s: "pd_concat (map snd ts) = Inr summaries"
    and l: "pd_concat (map fst ts) = Inr learners"
    by (auto simp: degrading_fit_def bindE_def Let_def split: sum.splits)
  have "collect_results (map ?call completion) = Inr ts"
    using sw sweep_results_calls[OF thr assms] by simp
  then have calls: "map ?call completion = map Inr ts" by (rule collect_results_InrD)
  have lc: "length completion = ?n"
    using mset_eq_length[OF assms] by simp
  have lt: "length ts = ?n"
    using arg_cong[OF calls, of length] lc by simp
  have ne: "ts \<noteq> []" using s by (auto simp: pd_concat_def split: if_splits)
  show "sorted_x_ids \<noteq> []" using ne lt by auto
  have S: "summaries = concat (map snd ts)" and L: "learners = concat (map fst ts)"
    using s l by (auto simp: pd_concat_def split: if_splits)
  have each: "?call (completion ! p) = Inr (ts ! p) \<and>
       length (fst (ts ! p)) = length y_ids \<and> length (snd (ts ! p)) = length y_ids"
    if p: "p < ?n" for p
  proof -
    have "map ?call completion ! p = map Inr ts ! p" by (simp only: calls)
    then have c: "?call (completion ! p) = Inr (ts ! p)" using p lc lt by simp
    then have "?call (completion ! p) = Inr (fst (ts ! p), snd (ts ! p))" by simp
    from fit_models_row_counts[OF this] c show ?thesis by simp
  qed
  have nth: "length (snd t) = length y_ids \<and> length (fst t) = length y_ids" if "t \<in> set ts" for t
  proof -
    from that obtain p where "p < length ts" "ts ! p = t" by (auto simp: in_set_conv_nth)
    with each[of p] lt show ?thesis by auto
  qed
  have alls: "list_all (\<lambda>t. length (snd t) = length y_ids) ts"
    and alll: "list_all (\<lambda>t. length (fst t) = length y_ids) ts"
    using nth by (simp_all add: list_all_iff)
  show "length summaries = ?n * length y_ids"
    unfolding S using length_concat_rows[OF alls] lt by simp
  show "length learners = ?n * length y_ids"
    unfolding L using length_concat_rows[OF alll] lt by simp
  show "\<exists>degraded_tuple.
          length degraded_tuple = ?n \<and>
          learners = concat (map fst degraded_tuple) \<and>
          summaries = concat (map snd degraded_tuple) \<and>
          (\<forall>p < ?n. ?call (completion ! p) = Inr (degraded_tuple ! p) \<and>
             length (fst (degraded_tuple ! p)) = length y_ids \<and>
             length (snd (degraded_tuple ! p)) = length y_ids)"
    using lt L S each by blast
qed

text \<open>
  Claim C9. Two runs of the sweep over the same dataset, ranked features, diagnoses and
  worker count may differ in the order in which the results are collected and in the
  state of the generator that a worker process has when it starts a call. The result of
  every submitted call is the same in both runs. If one run returns its tables, so does
  the other, and the summary tables of the two runs hold the same rows, up to their
  order (as do the lists of rows of the importance tables).
\<close>

theorem sweep_rows_independent_of_schedule:
  assumes "as_completed (submitted_futures sk worker_state1 df sorted_x_ids y_ids) completion1"
    and "as_completed (submitted_futures sk worker_state2 df sorted_x_ids y_ids) completion2"
    and "degrading_fit sk threads worker_state1 completion1 df sorted_x_ids y_ids =
           Inr (learners1, summaries1)"
  shows "submitted_futures sk worker_state2 df sorted_x_ids y_ids =
           submitted_futures sk worker_state1 df sorted_x_ids y_ids \<and>
         (\<exists>learners2 summaries2.
           degrading_fit sk threads worker_state2 completion2 df sorted_x_ids y_ids =
             Inr (learners2, summaries2) \<and>
           mset summaries2 = mset summaries1 \<and> mset learners2 = mset learners1)"
proof -
  let ?F1 = "submitted_futures sk worker_state1 df sorted_x_ids y_ids"
  let ?F2 = "submitted_futures sk worker_state2 df sorted_x_ids y_ids"
  have same: "?F2 = ?F1" by (rule submitted_futures_worker_state)
  from assms(3) obtain t1 where
    t1: "sweep_results sk threads worker_state1 completion1 df sorted_x_ids y_ids = Inr t1"
    and s1: "pd_concat (map snd t1) = Inr summaries1"
    and l1: "pd_concat (map fst t1) = Inr learners1"
    by (auto simp: degrading_fit_def bindE_def Let_def split: sum.splits)
  from sweep_results_values[OF assms(1) t1] obtain vs where
    thr: "0 < threads" and vs: "?F1 = map Inr vs" and t1v: "t1 = map (\<lambda>i. vs ! i) completion1"
    by blast
  let ?t2 = "map (\<lambda>i. vs ! i) completion2"
  have c12: "mset completion2 = mset completion1"
    using assms(1,2) same by (simp add: as_completed_def)
  have sc2: "set completion2 = {0..<length vs}"
    using assms(2) same vs unfolding as_completed_def by (metis length_map mset_eq_setD set_upt)
  have m2: "map (\<lambda>i. ?F2 ! i) completion2 = map Inr ?t2"
    unfolding same vs using sc2 by simp
  have "collect_results (map (\<lambda>i. ?F2 ! i) completion2) = Inr ?t2"
    unfolding m2 by (rule collect_results_map_Inr)
  then have t2: "sweep_results sk threads worker_state2 completion2 df sorted_x_ids y_ids = Inr ?t2"
    using thr by (simp add: sweep_results_def)
  have mt: "mset ?t2 = mset t1" unfolding t1v using c12 by simp
  have ne: "t1 \<noteq> []" using s1 by (auto simp: pd_concat_def split: if_splits)
  then have ne2: "?t2 \<noteq> []" using mt by (metis mset_zero_iff)
  have cs: "summaries1 = concat (map snd t1)" and cl: "learners1 = concat (map fst t1)"
    using s1 l1 by (auto simp: pd_concat_def split: if_splits)
  have r2: "degrading_fit sk threads worker_state2 completion2 df sorted_x_ids y_ids =
      Inr (concat (map fst ?t2), concat (map snd ?t2))"
    unfolding degrading_fit_def t2 using ne2 by (simp add: pd_concat_def Let_def)
  have "mset (concat (map snd ?t2)) = mset summaries1"
    unfolding cs mset_concat_map mt ..
  moreover have "mset (concat (map fst ?t2)) = mset learners1"
    unfolding cl mset_concat_map mt ..
  ultimately have "\<exists>learners2 summaries2.
           degrading_fit sk threads worker_state2 completion2 df sorted_x_ids y_ids =
             Inr (learners2, summaries2) \<and>
           mset summaries2 = mset summaries1 \<and> mset learners2 = mset learners1"
    using r2 by blast
  with same show ?thesis by simp
qed

section \<open>Input validation\<close>

text \<open>
  Claim C5, as the code has it. Nothing is validated up front. A call of
  \<^verbatim>\<open>fit_models\<close> without diagnoses does fail, with nothing fitted (the generator is
  still in its seeded state): with a KeyError for a feature that is no column, else with
  the ValueError of the concatenation of no summary. \<^verbatim>\<open>calculate_feature_importance\<close>
  accepts every \<open>number_of_questions\<close>: with orderings that are permutations of the
  duplicate-free features it prints its report and returns, and a
  \<open>number_of_questions\<close> that is not below the number of features makes the slices the
  whole orderings.
\<close>

theorem inputs_are_not_validated:
  "(\<exists>e. fit_models sk g df x_ids [] = (Inl e, np_random_seed 42)) \<and>
   (list_all (\<lambda>name. name \<in> set (columns df)) x_ids \<longrightarrow>
      fit_models sk g df x_ids [] = (Inl ValueError, np_random_seed 42)) \<and>
   (distinct x_ids \<and> mset (aggregate_sort srt learners x_ids) = mset x_ids \<and>
    mset (topn_sort srt learners x_ids) = mset x_ids \<and>
    argsort_returns
      (avg_rank (aggregate_sort srt learners x_ids) (topn_sort srt learners x_ids)) order \<longrightarrow>
    fst (calculate_feature_importance srt learners x_ids number_of_questions order) =
      consistency_report (aggregate_sort srt learners x_ids) (topn_sort srt learners x_ids)
        number_of_questions \<and>
    (\<exists>fused. snd (calculate_feature_importance srt learners x_ids number_of_questions order) =
       Inr (aggregate_sort srt learners x_ids, topn_sort srt learners x_ids, fused)) \<and>
    (int (length x_ids) \<le> number_of_questions \<longrightarrow>
       slice_to (aggregate_sort srt learners x_ids) number_of_questions =
         aggregate_sort srt learners x_ids \<and>
       slice_to (topn_sort srt learners x_ids) number_of_questions =
         topn_sort srt learners x_ids))"
proof (intro conjI impI)
  show "\<exists>e. fit_models sk g df x_ids [] = (Inl e, np_random_seed 42)"
    by (cases "getcolumns df x_ids") (simp_all add: fit_models_def pd_concat_def)
  show "fit_models sk g df x_ids [] = (Inl ValueError, np_random_seed 42)"
    if "list_all (\<lambda>name. name \<in> set (columns df)) x_ids"
    using that by (simp add: fit_models_def pd_concat_def getcolumns_def)
next
  let ?agg = "aggregate_sort srt learners x_ids" and ?topn = "topn_sort srt learners x_ids"
  assume a: "distinct x_ids \<and> mset ?agg = mset x_ids \<and> mset ?topn = mset x_ids \<and>
    argsort_returns (avg_rank ?agg ?topn) order"
  show "fst (calculate_feature_importance srt learners x_ids number_of_questions order) =
      consistency_report ?agg ?topn number_of_questions"
    by (rule fst_calculate_feature_importance)
  have da: "distinct ?agg" and dt: "distinct ?topn"
    using a mset_eq_imp_distinct_iff by blast+
  have sub: "set ?agg \<subseteq> set ?topn"
    using a mset_eq_setD[of ?agg x_ids] mset_eq_setD[of ?topn x_ids] by simp
  have ord: "mset order = mset [0..<length ?agg]"
    using a by (simp add: argsort_returns_def length_avg_rank[OF dt sub])
  show "\<exists>fused. snd (calculate_feature_importance srt learners x_ids number_of_questions order) =
       Inr (?agg, ?topn, fused)"
    using snd_calculate_feature_importance[OF ord] by blast
  assume big: "int (length x_ids) \<le> number_of_questions"
  have "length ?agg = length x_ids" "length ?topn = length x_ids"
    using a mset_eq_length by blast+
  then show "slice_to ?agg number_of_questions = ?agg" "slice_to ?topn number_of_questions = ?topn"
    using big by (simp_all add: slice_to_def)
qed

section \<open>Examples\<close>

lemma example_df_simps:
  "columns example_df = [''q1'', ''q2'', ''q3'', ''dx1'', ''dx2'']"
  "getcolumn example_df ''dx1'' = Inr [0, 1, 0, 1]"
  "getcolumn example_df ''dx2'' = Inr [0, 0, 0, 0]"
  "getcolumns example_df [''q1'', ''q2'', ''q3''] = Inr [[0, 1, 2], [2, 0, 1], [1, 1, 0], [2, 2, 2]]"
  "getcolumns example_df [''q1'', ''q2''] = Inr [[0, 1], [2, 0], [1, 1], [2, 2]]"
  "getcolumns example_df [''q1''] = Inr [[0], [2], [1], [2]]"
  by (simp_all add: example_df_def getcolumn_def getcolumns_def example_row_def)

lemma example_fit2:
  "fit_models example_sklearn g example_df [''q1'', ''q2''] [''dx1''] =
     (Inr ([[(''Dx'', Str ''dx1''), (''q1'', Num (3 / 4)), (''q2'', Num (1 / 4))]],
           [\<lparr>summary_dx = ''dx1'', summary_hc_n = 2, summary_dx_n = 2,
             summary_acc_train = Some 1, summary_acc_valid = Some (1 / 2),
             summary_f1 = Some (1 / 2), summary_sen = Some (1 / 2),
             summary_spe = Some (1 / 2), summary_LRp = Some 1,
             summary_LRn = None\<rparr>]),
      Seeded 42 2)"
  by (simp add: fit_models_def example_df_simps fit_diagnosis_def Let_def astype_int_def
      unique_counts_def getitem_def np_random_seed_def example_sklearn_def take_indices_def
      record_fold_def Learner_def example_scores_def learner_row_def importance_means_def
      vstack_def atleast_2d_def mean_axis0_def importance_row_def summary_def mean_nan_def
      pd_concat_def upt_rec numeral_eq_Suc)

lemmas example_unfold =
  fit_models_def example_df_simps fit_diagnosis_def Let_def astype_int_def
  unique_counts_def getitem_def np_random_seed_def example_sklearn_def take_indices_def
  record_fold_def Learner_def example_scores_def learner_row_def importance_means_def
  vstack_def atleast_2d_def mean_axis0_def importance_row_def summary_def mean_nan_def
  pd_concat_def upt_rec numeral_eq_Suc

lemma example_fit3:
  "fit_models example_sklearn g example_df [''q1'', ''q2'', ''q3''] [''dx1''] =
     (Inr ([[(''Dx'', Str ''dx1''), (''q1'', Num (2 / 3)), (''q2'', Num (1 / 6)),
             (''q3'', Num (1 / 6))]], [example_summary]),
      Seeded 42 2)"
  by (simp add: example_unfold example_summary_def)

lemma example_fit1:
  "fit_models example_sklearn g example_df [''q1''] [''dx1''] =
     (Inr ([[(''Dx'', Str ''dx1''), (''q1'', Num 1)]], [example_summary]), Seeded 42 2)"
  by (simp add: example_unfold example_summary_def)

lemma example_fit2':
  "fit_models example_sklearn g example_df [''q1'', ''q2''] [''dx1''] =
     (Inr ([[(''Dx'', Str ''dx1''), (''q1'', Num (3 / 4)), (''q2'', Num (1 / 4))]],
           [example_summary]), Seeded 42 2)"
  by (simp add: example_fit2 example_summary_def)

lemma example_futures:
  "submitted_futures example_sklearn worker_state example_df [''q1'', ''q2'', ''q3''] [''dx1''] =
     [Inr ([[(''Dx'', Str ''dx1''), (''q1'', Num (2 / 3)), (''q2'', Num (1 / 6)),
             (''q3'', Num (1 / 6))]], [example_summary]),
      Inr ([[(''Dx'', Str ''dx1''), (''q1'', Num (3 / 4)), (''q2'', Num (1 / 4))]],
           [example_summary]),
      Inr ([[(''Dx'', Str ''dx1''), (''q1'', Num 1)]], [example_summary])]"
  by (simp add: submitted_futures_def submitted_subsets_def slice_to_def upt_rec numeral_eq_Suc
      enumerate_eq_zip example_fit3 example_fit2' example_fit1 del: upt.simps)

lemma example_cv_loop2:
  "cv_loop example_sklearn [[0, 1], [2, 0], [1, 1], [2, 2]] [0, 1, 0, 1]
     [([0, 1], [2, 3]), ([2, 3], [0, 1])] (Learner ''dx1'' hc pt [''q1'', ''q2''])
     (Seeded 42 0) = (Inr l, g') \<Longrightarrow>
   fi l = [[[1 / 2, 1 / 2], [1, 0]], [[1 / 2, 1 / 2], [1, 0]]]"
  by (auto simp: example_sklearn_def take_indices_def record_fold_def Learner_def
      example_scores_def bindE_def numeral_eq_Suc)

theorem importance_table_two_stage_witness:
  "fst (fit_models example_sklearn (Seeded 7 0) example_df [''q1'', ''q2''] [''dx1'']) =
     Inr ([(''Dx'', Str ''dx1'') # zip [''q1'', ''q2'']
             (map Num (two_stage_mean [[[1 / 2, 1 / 2], [1, 0]], [[1 / 2, 1 / 2], [1, 0]]]))],
          [example_summary]) \<and>
   two_stage_mean [[[1 / 2, 1 / 2], [1, 0]], [[1 / 2, 1 / 2], [1, 0]]] = [3 / 4, 1 / 4]"
proof -
  let ?row = "[(''Dx'', Str ''dx1''), (''q1'', Num (3 / 4)), (''q2'', Num (1 / 4))]"
  let ?nested = "[[[1 / 2, 1 / 2], [1, 0]], [[1 / 2, 1 / 2], [1, 0 :: real]]]"
  have h: "fst (fit_models example_sklearn (Seeded 7 0) example_df [''q1'', ''q2''] [''dx1'']) =
     Inr ([?row], [example_summary])"
    by (simp add: example_fit2')
  from importance_table_two_stage[OF h] obtain X col folds l g' where
    X: "getcolumns example_df [''q1'', ''q2''] = Inr X"
    and c: "getcolumn example_df ''dx1'' = Inr col"
    and f: "cv_split example_sklearn X (map astype_int col) = Inr folds"
    and cv: "cv_loop example_sklearn X (map astype_int col) folds
          (Learner ''dx1'' (unique_counts (map astype_int col) ! 0)
             (unique_counts (map astype_int col) ! 1) [''q1'', ''q2''])
          (snd (fit_loop example_sklearn example_df X [''q1'', ''q2''] (take 0 [''dx1'']) [] []
                 (np_random_seed 42))) = (Inr l, g')"
    and two: "\<forall>k. 0 < k \<and> list_all (\<lambda>block. length block = k) (fi l) \<longrightarrow>
           (distinct [''q1'', ''q2''] \<and> ''Dx'' \<notin> set [''q1'', ''q2''] \<longrightarrow>
              [?row] ! 0 =
                (''Dx'', Str ''dx1'') # zip [''q1'', ''q2''] (map Num (two_stage_mean (fi l))))"
    by fastforce
  have Xc: "X = [[0, 1], [2, 0], [1, 1], [2, 2]]" using X by (simp add: example_df_simps)
  have cc: "map astype_int col = [0, 1, 0, 1]"
    using c by (auto simp: example_df_simps astype_int_def)
  have fc: "folds = [([0, 1], [2, 3]), ([2, 3], [0, 1])]"
    using f by (simp add: example_sklearn_def)
  have fil: "fi l = ?nested"
    using cv unfolding Xc cc fc by (simp add: np_random_seed_def example_cv_loop2)
  have "?row = (''Dx'', Str ''dx1'') # zip [''q1'', ''q2''] (map Num (two_stage_mean ?nested))"
    using two[rule_format, of 2] unfolding fil by simp
  moreover have "two_stage_mean ?nested = [3 / 4, 1 / 4]"
    by (simp add: two_stage_mean_def mean_axis0_def upt_rec numeral_eq_Suc)
  ultimately show ?thesis using h by simp
qed

theorem one_class_target_aborts_witness:
  "(\<exists>e. fst (fit_models example_sklearn (Seeded 7 0) example_df [''q1'', ''q2'']
               [''dx1'', ''dx2'']) = Inl e) \<and>
   fit_models example_sklearn (Seeded 7 0) example_df [''q1'', ''q2''] [''dx2'', ''dx1'', ''dx2'']
     = (Inl IndexError, Seeded 42 0)"
proof -
  have h1: "getcolumn example_df ''dx2'' = Inr [0, 0, 0, 0]" by (simp add: example_df_simps)
  have h2: "set (map astype_int [0, 0, 0, 0]) \<subseteq> {0}" by (simp add: astype_int_def)
  have h3: "list_all (\<lambda>name. name \<in> set (columns example_df)) [''q1'', ''q2'']"
    by (simp add: example_df_simps)
  have h4: "''dx2'' \<in> set [''dx1'', ''dx2'']" by simp
  from one_class_target_aborts[OF h1 h2, of "[''dx1'', ''dx2'']" example_sklearn "Seeded 7 0"
      "[''q1'', ''q2'']"] h3 h4
  show ?thesis by (simp add: np_random_seed_def)
qed

text \<open>
  A diagnosis without positive samples aborts the call with IndexError; the diagnosis
  \<open>dx1\<close> after it, which has both classes, is not fitted.
\<close>

theorem one_class_target_counterexample:
  "fit_models example_sklearn (Seeded 7 0) example_df [''q1'', ''q2''] [''dx2'', ''dx1'']
     = (Inl IndexError, Seeded 42 0) \<and>
   getcolumn example_df ''dx2'' = Inr [0, 0, 0, 0]"
  by (simp add: example_unfold)

theorem fit_models_overwrites_generator_witness:
  "fit_models example_sklearn (Seeded 7 0) example_df [''q1'', ''q2''] [''dx1''] =
     fit_models example_sklearn (Seeded 42 0) example_df [''q1'', ''q2''] [''dx1''] \<and>
   snd (fit_models example_sklearn (Seeded 7 0) example_df [''q1'', ''q2''] []) = Seeded 42 0"
  using fit_models_overwrites_generator[of example_sklearn "Seeded 7 0" example_df
      "[''q1'', ''q2'']" "[''dx1'']"]
    fit_models_overwrites_generator[of example_sklearn "Seeded 7 0" example_df
      "[''q1'', ''q2'']" "[]"]
  by (simp add: np_random_seed_def)

text \<open>
  A completed call entered with the generator seeded with 7 leaves it seeded with 42 and
  advanced by the two fits.
\<close>

theorem fit_models_changes_generator_counterexample:
  "fit_models example_sklearn (Seeded 7 0) example_df [''q1'', ''q2''] [''dx1''] =
     (Inr ([[(''Dx'', Str ''dx1''), (''q1'', Num (3 / 4)), (''q2'', Num (1 / 4))]],
           [example_summary]), Seeded 42 2) \<and>
   Seeded 42 2 \<noteq> Seeded 7 0"
  by (simp add: example_fit2')

lemma example_importances_normalised: "0 < f \<Longrightarrow> importances_normalised example_sklearn f"
  unfolding importances_normalised_def
proof (intro allI impI)
  fix g X_tr y_tr X_te y_te sc g'
  assume f: "0 < f"
    and a: "list_all (\<lambda>r. length r = f) X_tr \<and>
       fit_and_score example_sklearn g X_tr y_tr X_te y_te = (Inr sc, g')"
  then obtain r rs where X: "X_tr = r # rs" "length r = f"
    by (cases X_tr) (auto simp: example_sklearn_def)
  with a f have sc: "sc = example_scores f"
    by (auto simp: example_sklearn_def split: if_splits)
  have "sum_list (replicate f (1 / real f)) = 1" using f by (simp add: sum_list_replicate)
  moreover have "sum_list (1 # replicate (f - 1) (0::real)) = 1" by (simp add: sum_list_replicate)
  moreover have "length (1 # replicate (f - 1) (0::real)) = f" using f by simp
  ultimately show "good_block f (feature_importances sc)"
    unfolding sc good_block_def example_scores_def importance_vector_def
    by (simp add: list_all_iff)
qed

theorem fit_models_tables_witness:
  "fst (fit_models example_sklearn (Seeded 7 0) example_df [''q1'', ''q2''] [''dx1'']) =
     Inr ([[(''Dx'', Str ''dx1''), (''q1'', Num (3 / 4)), (''q2'', Num (1 / 4))]],
          [example_summary]) \<and>
   map summary_dx [example_summary] = [''dx1''] \<and>
   list_all2 (\<lambda>y_name row. \<exists>imp. row = (''Dx'', Str y_name) # zip [''q1'', ''q2''] (map Num imp) \<and>
                length imp = length [''q1'', ''q2''] \<and> list_all (\<lambda>x. 0 \<le> x) imp \<and>
                sum_list imp = 1)
     [''dx1''] [[(''Dx'', Str ''dx1''), (''q1'', Num (3 / 4)), (''q2'', Num (1 / 4))]]"
proof -
  let ?x = "[''q1'', ''q2'']"
  have h1: "fst (fit_models example_sklearn (Seeded 7 0) example_df ?x [''dx1'']) =
     Inr ([[(''Dx'', Str ''dx1''), (''q1'', Num (3 / 4)), (''q2'', Num (1 / 4))]],
          [example_summary])"
    by (simp add: example_fit2')
  have h2: "distinct ?x" by simp
  have h3: "''Dx'' \<notin> set ?x" by simp
  have h4: "importances_normalised example_sklearn (length ?x)"
    by (rule example_importances_normalised) simp
  from fit_models_tables[OF h1 h2 h3 h4] h1 show ?thesis by simp
qed

text \<open>
  A repeated feature identifier: the call completes, the library's vectors are as the
  claim supposes, and the row of \<open>dx1\<close> has one column for the two requested features,
  with the value 1/4.
\<close>

theorem repeated_feature_counterexample:
  "fit_models example_sklearn (Seeded 7 0) example_df [''q1'', ''q1''] [''dx1''] =
     (Inr ([[(''Dx'', Str ''dx1''), (''q1'', Num (1 / 4))]], [example_summary]), Seeded 42 2) \<and>
   length [''q1'', ''q1''] = 2 \<and>
   importances_normalised example_sklearn (length [''q1'', ''q1''])"
proof -
  have X: "getcolumns example_df [''q1'', ''q1''] = Inr [[0, 0], [2, 2], [1, 1], [2, 2]]"
    by (simp add: example_df_def getcolumns_def example_row_def)
  have "fit_models example_sklearn (Seeded 7 0) example_df [''q1'', ''q1''] [''dx1''] =
     (Inr ([[(''Dx'', Str ''dx1''), (''q1'', Num (1 / 4))]], [example_summary]), Seeded 42 2)"
    by (simp add: X example_unfold example_summary_def)
  moreover have "importances_normalised example_sklearn (length [''q1'', ''q1''])"
    by (rule example_importances_normalised) simp
  ultimately show ?thesis by simp
qed

theorem inputs_are_not_validated_witness:
  "fit_models example_sklearn (Seeded 7 0) example_df [''q1'', ''q2''] [] =
     (Inl ValueError, Seeded 42 0) \<and>
   calculate_feature_importance (fixed_sorting [''a'', ''b''] [''b'', ''a'']) ()
     [''a'', ''b''] 5 [0, 1] =
     ((3, Some 60), Inr ([''a'', ''b''], [''b'', ''a''], [''a'', ''b'']))"
proof -
  let ?x = "[''a'', ''b'']" and ?t = "[''b'', ''a'']"
  have h0: "list_all (\<lambda>name. name \<in> set (columns example_df)) [''q1'', ''q2'']"
    by (simp add: example_df_simps)
  have k: "avg_rank ?x ?t = [1 / 2, 1 / 2]"
    unfolding avg_rank_def where_eq_def by (simp add: upt_rec numeral_eq_Suc)
  have h1: "distinct ?x \<and> mset (aggregate_sort (fixed_sorting ?x ?t) () ?x) = mset ?x \<and>
      mset (topn_sort (fixed_sorting ?x ?t) () ?x) = mset ?x \<and>
      argsort_returns (avg_rank (aggregate_sort (fixed_sorting ?x ?t) () ?x)
         (topn_sort (fixed_sorting ?x ?t) () ?x)) [0, 1]"
    by (simp add: k argsort_returns_def upt_rec numeral_eq_Suc)
  have h2: "int (length ?x) \<le> 5" by simp
  from inputs_are_not_validated[where sk = example_sklearn and g = "Seeded 7 0"
      and df = example_df and x_ids = "[''q1'', ''q2'']"
      and srt = "fixed_sorting ?x ?t" and learners = "()" and order = "[0, 1]"
      and number_of_questions = 5, THEN conjunct2, THEN conjunct1] h0
  have a: "fit_models example_sklearn (Seeded 7 0) example_df [''q1'', ''q2''] [] =
     (Inl ValueError, Seeded 42 0)"
    by (simp add: np_random_seed_def)
  from inputs_are_not_validated[where sk = example_sklearn and g = "Seeded 7 0"
      and df = example_df and x_ids = ?x and srt = "fixed_sorting ?x ?t"
      and learners = "()" and order = "[0, 1]" and number_of_questions = 5,
      THEN conjunct2, THEN conjunct2] h1 h2
  have b: "\<exists>fused. snd (calculate_feature_importance (fixed_sorting ?x ?t) () ?x 5 [0, 1]) =
       Inr (?x, ?t, fused)"
    by simp
  have c: "calculate_feature_importance (fixed_sorting ?x ?t) () ?x 5 [0, 1] =
     ((3, Some 60), Inr (?x, ?t, ?x))"
    by (simp add: calculate_feature_importance_def consistency_report_def slice_to_def
        sorted_average_def take_indices_def Let_def)
  from a b c show ?thesis by simp
qed

text \<open>
  With two features and \<open>number_of_questions = 5\<close> the function prints its report and
  returns the three orderings.
\<close>

theorem top_n_not_validated_counterexample:
  "calculate_feature_importance (fixed_sorting [''a'', ''b''] [''b'', ''a'']) ()
     [''a'', ''b''] 5 [0, 1] =
     ((3, Some 60), Inr ([''a'', ''b''], [''b'', ''a''], [''a'', ''b''])) \<and>
   argsort_returns (avg_rank [''a'', ''b''] [''b'', ''a'']) [0, 1] \<and>
   int (length [''a'', ''b'']) < 5"
proof -
  have k: "avg_rank [''a'', ''b''] [''b'', ''a''] = [1 / 2, 1 / 2]"
    unfolding avg_rank_def where_eq_def by (simp add: upt_rec numeral_eq_Suc)
  show ?thesis
    by (simp add: k argsort_returns_def calculate_feature_importance_def consistency_report_def
        slice_to_def sorted_average_def take_indices_def Let_def upt_rec numeral_eq_Suc)
qed

theorem degrading_fit_prefix_sweep_witness:
  "degrading_fit example_sklearn 4 (\<lambda>i. Seeded (int i) 5) [2, 0, 1] example_df
     [''q1'', ''q2'', ''q3''] [''dx1''] =
     Inr ([[(''Dx'', Str ''dx1''), (''q1'', Num 1)],
           [(''Dx'', Str ''dx1''), (''q1'', Num (2 / 3)), (''q2'', Num (1 / 6)),
            (''q3'', Num (1 / 6))],
           [(''Dx'', Str ''dx1''), (''q1'', Num (3 / 4)), (''q2'', Num (1 / 4))]],
          [example_summary, example_summary, example_summary]) \<and>
   length [example_summary, example_summary, example_summary] =
     length [''q1'', ''q2'', ''q3''] * length [''dx1''] \<and>
   strict_prefix [''q1'', ''q2''] [''q1'', ''q2'', ''q3''] \<and>
   degrading_fit example_sklearn 0 (\<lambda>i. Seeded (int i) 5) [2, 0, 1] example_df
     [''q1'', ''q2'', ''q3''] [''dx1''] = Inl ValueError"
proof -
  let ?s = "[''q1'', ''q2'', ''q3'']" and ?ws = "\<lambda>i. Seeded (int i) 5"
  have h: "mset [2, 0, 1] = mset [0..<length ?s]"
    by (simp add: upt_rec numeral_eq_Suc)
  have r: "degrading_fit example_sklearn 4 ?ws [2, 0, 1] example_df ?s [''dx1''] =
     Inr ([[(''Dx'', Str ''dx1''), (''q1'', Num 1)],
           [(''Dx'', Str ''dx1''), (''q1'', Num (2 / 3)), (''q2'', Num (1 / 6)),
            (''q3'', Num (1 / 6))],
           [(''Dx'', Str ''dx1''), (''q1'', Num (3 / 4)), (''q2'', Num (1 / 4))]],
          [example_summary, example_summary, example_summary])"
    by (simp add: degrading_fit_def sweep_results_def example_futures pd_concat_def Let_def)
  note t4 = degrading_fit_prefix_sweep[OF h, where sk = example_sklearn and threads = 4
      and worker_state = ?ws and df = example_df and y_ids = "[''dx1'']"]
  note t0 = degrading_fit_prefix_sweep[OF h, where sk = example_sklearn and threads = 0
      and worker_state = ?ws and df = example_df and y_ids = "[''dx1'']"]
  have a: "length [example_summary, example_summary, example_summary] =
     length ?s * length [''dx1'']"
    using t4 r by simp
  have b: "strict_prefix [''q1'', ''q2''] ?s"
    using t4[THEN conjunct2, THEN conjunct2, THEN conjunct2, THEN conjunct1, rule_format, of 2]
    by simp
  have c: "degrading_fit example_sklearn 0 ?ws [2, 0, 1] example_df ?s [''dx1''] = Inl ValueError"
    using t0 by simp
  from r a b c show ?thesis by simp
qed

theorem sweep_rows_independent_of_schedule_witness:
  "\<exists>learners2 summaries2.
     degrading_fit example_sklearn 4 (\<lambda>i. Seeded (int i) 5) [2, 0, 1] example_df
       [''q1'', ''q2'', ''q3''] [''dx1''] = Inr (learners2, summaries2) \<and>
     mset summaries2 = mset [example_summary, example_summary, example_summary] \<and>
     mset learners2 =
       mset [[(''Dx'', Str ''dx1''), (''q1'', Num (2 / 3)), (''q2'', Num (1 / 6)),
              (''q3'', Num (1 / 6))],
             [(''Dx'', Str ''dx1''), (''q1'', Num (3 / 4)), (''q2'', Num (1 / 4))],
             [(''Dx'', Str ''dx1''), (''q1'', Num 1)]]"
proof -
  let ?s = "[''q1'', ''q2'', ''q3'']"
  let ?ws1 = "\<lambda>i::nat. Seeded 1 0" and ?ws2 = "\<lambda>i. Seeded (int i) 5"
  have h1: "as_completed (submitted_futures example_sklearn ?ws1 example_df ?s [''dx1''])
              [0, 1, 2]"
    by (simp add: as_completed_def length_submitted_futures upt_rec numeral_eq_Suc)
  have h2: "as_completed (submitted_futures example_sklearn ?ws2 example_df ?s [''dx1''])
              [2, 0, 1]"
    by (simp add: as_completed_def length_submitted_futures upt_rec numeral_eq_Suc)
  have h3: "degrading_fit example_sklearn 4 ?ws1 [0, 1, 2] example_df ?s [''dx1''] =
     Inr ([[(''Dx'', Str ''dx1''), (''q1'', Num (2 / 3)), (''q2'', Num (1 / 6)),
              (''q3'', Num (1 / 6))],
             [(''Dx'', Str ''dx1''), (''q1'', Num (3 / 4)), (''q2'', Num (1 / 4))],
             [(''Dx'', Str ''dx1''), (''q1'', Num 1)]],
          [example_summary, example_summary, example_summary])"
    by (simp add: degrading_fit_def sweep_results_def example_futures pd_concat_def Let_def)
  from sweep_rows_independent_of_schedule[OF h1 h2 h3] show ?thesis by (rule conjunct2)
qed

end
